theory Spec2Isabelle
  imports Main "HOL-Library.Monad_Syntax"
begin

section \<open>Board engine: the constants, makeMove, checkWin, checkDraw\<close>

text \<open>
  The grid is the Go array \<^verbatim>\<open>[Rows][Cols]int\<close>: a list of \<open>Rows\<close> rows of \<open>Cols\<close> cells,
  row 0 at the top. Go's \<^verbatim>\<open>int\<close> is modelled by \<open>int\<close>; every value that occurs is a
  row, a column, a mark or a counter below 8, so no arithmetic wraps. The struct fields
  \<^verbatim>\<open>Player1\<close> and \<^verbatim>\<open>Player2\<close> of a game keep their names below, hence the three mark
  constants \<^verbatim>\<open>Empty\<close>, \<^verbatim>\<open>Player1\<close>, \<^verbatim>\<open>Player2\<close> carry the suffix \<open>_mark\<close>.
\<close>

definition Rows :: int where "Rows = 6"
definition Cols :: int where "Cols = 7"

definition Empty_mark :: int where "Empty_mark = 0"
definition Player1_mark :: int where "Player1_mark = 1"
definition Player2_mark :: int where "Player2_mark = 2"

type_synonym board = "int list list"

definition zeroBoard :: board where
  "zeroBoard = replicate (nat Rows) (replicate (nat Cols) Empty_mark)"

definition wf_board :: "board \<Rightarrow> bool" where
  "wf_board b \<longleftrightarrow> length b = nat Rows \<and> (\<forall>row \<in> set b. length row = nat Cols)"

definition in_board :: "int \<Rightarrow> int \<Rightarrow> bool" where
  "in_board r c \<longleftrightarrow> 0 \<le> r \<and> r < Rows \<and> 0 \<le> c \<and> c < Cols"

definition cell :: "board \<Rightarrow> int \<Rightarrow> int \<Rightarrow> int" where
  "cell b r c = b ! nat r ! nat c"

definition setCell :: "board \<Rightarrow> int \<Rightarrow> int \<Rightarrow> int \<Rightarrow> board" where
  "setCell b r c v = b[nat r := (b ! nat r)[nat c := v]]"

text \<open>
  \<^verbatim>\<open>for r := Rows - 1; r >= 0; r-- { if g.Board[r][col] == Empty { ...; return r, nil } }\<close>
  The loop of \<^verbatim>\<open>makeMove\<close>: the result is the row found, or \<open>None\<close> when the loop runs out.
\<close>

function makeMove_loop :: "board \<Rightarrow> int \<Rightarrow> int \<Rightarrow> int option" where
  "makeMove_loop b col r =
     (if r \<ge> 0
      then (if cell b r col = Empty_mark then Some r else makeMove_loop b col (r - 1))
      else None)"
  by pat_completeness auto
termination
  by (relation "measure (\<lambda>(b, col, r). nat (r + 1))") auto

declare makeMove_loop.simps [simp del]

text \<open>
  \<^verbatim>\<open>makeMove\<close> returns \<^verbatim>\<open>(row, nil)\<close> with the board updated, or \<^verbatim>\<open>(-1, err)\<close> with the
  board untouched; the error is the text given to \<^verbatim>\<open>errors.New\<close>.
\<close>

definition makeMove :: "board \<Rightarrow> int \<Rightarrow> int \<Rightarrow> string + (int \<times> board)" where
  "makeMove b col playerNum =
     (if col < 0 \<or> col \<ge> Cols then Inl ''Invalid column''
      else (case makeMove_loop b col (Rows - 1) of
              Some r \<Rightarrow> Inr (r, setCell b r col playerNum)
            | None \<Rightarrow> Inl ''Column is full''))"

text \<open>The four scans of \<^verbatim>\<open>checkWin\<close>, each with its own loop header and the shared body.\<close>

function checkWin_horizontal :: "board \<Rightarrow> int \<Rightarrow> int \<Rightarrow> int \<Rightarrow> int \<Rightarrow> bool" where
  "checkWin_horizontal b lastRow playerNum c count =
     (if c < Cols
      then (if cell b lastRow c = playerNum
            then (if count + 1 \<ge> 4 then True
                  else checkWin_horizontal b lastRow playerNum (c + 1) (count + 1))
            else checkWin_horizontal b lastRow playerNum (c + 1) 0)
      else False)"
  by pat_completeness auto
termination
  by (relation "measure (\<lambda>(b, lastRow, playerNum, c, count). nat (Cols - c))") auto

function checkWin_vertical :: "board \<Rightarrow> int \<Rightarrow> int \<Rightarrow> int \<Rightarrow> int \<Rightarrow> bool" where
  "checkWin_vertical b lastCol playerNum r count =
     (if r < Rows
      then (if cell b r lastCol = playerNum
            then (if count + 1 \<ge> 4 then True
                  else checkWin_vertical b lastCol playerNum (r + 1) (count + 1))
            else checkWin_vertical b lastCol playerNum (r + 1) 0)
      else False)"
  by pat_completeness auto
termination
  by (relation "measure (\<lambda>(b, lastCol, playerNum, r, count). nat (Rows - r))") auto

function checkWin_diagDown :: "board \<Rightarrow> int \<Rightarrow> int \<Rightarrow> int \<Rightarrow> int \<Rightarrow> bool" where
  "checkWin_diagDown b playerNum r c count =
     (if r < Rows \<and> c < Cols
      then (if cell b r c = playerNum
            then (if count + 1 \<ge> 4 then True
                  else checkWin_diagDown b playerNum (r + 1) (c + 1) (count + 1))
            else checkWin_diagDown b playerNum (r + 1) (c + 1) 0)
      else False)"
  by pat_completeness auto
termination
  by (relation "measure (\<lambda>(b, playerNum, r, c, count). nat (Cols - c))") auto

function checkWin_diagUp :: "board \<Rightarrow> int \<Rightarrow> int \<Rightarrow> int \<Rightarrow> int \<Rightarrow> bool" where
  "checkWin_diagUp b playerNum r c count =
     (if r \<ge> 0 \<and> c < Cols
      then (if cell b r c = playerNum
            then (if count + 1 \<ge> 4 then True
                  else checkWin_diagUp b playerNum (r - 1) (c + 1) (count + 1))
            else checkWin_diagUp b playerNum (r - 1) (c + 1) 0)
      else False)"
  by pat_completeness auto
termination
  by (relation "measure (\<lambda>(b, playerNum, r, c, count). nat (Cols - c))") auto

declare checkWin_horizontal.simps [simp del]
declare checkWin_vertical.simps [simp del]
declare checkWin_diagDown.simps [simp del]
declare checkWin_diagUp.simps [simp del]

definition checkWin :: "board \<Rightarrow> int \<Rightarrow> int \<Rightarrow> int \<Rightarrow> bool" where
  "checkWin b lastRow lastCol playerNum =
     (checkWin_horizontal b lastRow playerNum 0 0
      \<or> checkWin_vertical b lastCol playerNum 0 0
      \<or> checkWin_diagDown b playerNum
           (lastRow - min lastRow lastCol) (lastCol - min lastRow lastCol) 0
      \<or> checkWin_diagUp b playerNum
           (lastRow + min (Rows - 1 - lastRow) lastCol)
           (lastCol - min (Rows - 1 - lastRow) lastCol) 0)"

function checkDraw_loop :: "board \<Rightarrow> int \<Rightarrow> bool" where
  "checkDraw_loop b c =
     (if c < Cols
      then (if cell b 0 c = Empty_mark then False else checkDraw_loop b (c + 1))
      else True)"
  by pat_completeness auto
termination
  by (relation "measure (\<lambda>(b, c). nat (Cols - c))") auto

declare checkDraw_loop.simps [simp del]

definition checkDraw :: "board \<Rightarrow> bool" where
  "checkDraw b = checkDraw_loop b 0"

section \<open>Participants, matches and the process state\<close>

text \<open>
  Players and games are Go heap objects reached through pointers, and the code compares
  those pointers (\<^verbatim>\<open>gm.waitingPlayer == player\<close>, \<^verbatim>\<open>player == g.Player1\<close>), so both live in
  explicit stores indexed by address; a nil pointer is \<open>None\<close>.
  A player's \<^verbatim>\<open>Send\<close> channel is the sequence of frames put on it, with a flag for
  \<^verbatim>\<open>close\<close>: sending on, or closing, a closed channel panics. The buffer bound of 256 and
  the send loop that drains the channel belong to the transport and are not modelled.
  Left out as well: the clock (\<^verbatim>\<open>StartTime\<close>, \<^verbatim>\<open>EndTime\<close>, the time fields of events),
  logging, the mutexes, and the fields \<^verbatim>\<open>Player.ID\<close>, \<^verbatim>\<open>Player.Manager\<close>, \<^verbatim>\<open>Game.manager\<close>
  and \<^verbatim>\<open>Game.Bot\<close> (one manager per process; the bot is a stateless value).
\<close>

type_synonym pref = nat
type_synonym gref = nat
type_synonym conn = nat

datatype GameState =
  GameState (st_ID: string) (st_Board: board) (st_Player1: string) (st_Player2: string)
            (st_IsBot: bool) (st_CurrentPlayer: int) (st_Status: string) (st_Winner: int)

datatype payload = NoData | StateData GameState | RoomCodeData string | MessageData string

datatype frame = Frame string payload

record Player =
  Username :: string
  Conn :: conn
  Game :: "gref option"
  Send :: "frame list"
  Send_closed :: bool

record Game =
  ID :: string
  Board :: board
  Player1 :: pref
  Player2 :: "pref option"
  IsBot :: bool
  CurrentPlayer :: int
  Status :: string
  Winner :: int

text \<open>
  The closures handed to \<^verbatim>\<open>time.AfterFunc\<close>, with the variables they capture, and the
  work handed to goroutines and collaborators. Arming a timer or starting a goroutine
  appends to the \<open>effects\<close> of the state; the body of a timer is a function of its own below,
  run on whatever state holds when it fires.
\<close>

datatype timer = MatchmakingTimer pref | RoomTimer string pref | ReconnectTimer gref pref

datatype jvalue = S string | I int | B bool

datatype effect =
    SaveGame gref
  | UpdatePlayerStats string bool
  | ProduceEvent string "(string \<times> jvalue) list"
  | AfterFunc timer
  | Bot_MakeMove_go gref
  | DiscardHandle_go pref
  | WriteMessages_go pref
  | Conn_Close conn

text \<open>
  The process state: the four fields of the single \<^verbatim>\<open>GameManager\<close>, the two stores, the
  next free game address, and the effects so far.
\<close>

record world =
  players :: "string \<rightharpoonup> pref"
  games :: "string \<rightharpoonup> gref"
  waitingPlayer :: "pref option"
  PrivateRooms :: "string \<rightharpoonup> pref"
  playerHeap :: "pref \<Rightarrow> Player"
  gameHeap :: "gref \<Rightarrow> Game"
  nextGame :: gref
  effects :: "effect list"

definition updPlayer :: "pref \<Rightarrow> (Player \<Rightarrow> Player) \<Rightarrow> world \<Rightarrow> world" where
  "updPlayer p f w = w\<lparr>playerHeap := (playerHeap w)(p := f (playerHeap w p))\<rparr>"

definition updGame :: "gref \<Rightarrow> (Game \<Rightarrow> Game) \<Rightarrow> world \<Rightarrow> world" where
  "updGame gr f w = w\<lparr>gameHeap := (gameHeap w)(gr := f (gameHeap w gr))\<rparr>"

definition emit :: "effect list \<Rightarrow> world \<Rightarrow> world" where
  "emit es w = w\<lparr>effects := effects w @ es\<rparr>"

definition NewPlayer :: "conn \<Rightarrow> Player" where
  "NewPlayer c = \<lparr>Username = [], Conn = c, Game = None, Send = [], Send_closed = False\<rparr>"

text \<open>
  \<^verbatim>\<open>p.Send <- payload\<close>. A result \<open>None\<close> of an operation on the state means that the call
  does not return: the goroutine panics, which ends the process.
\<close>

definition enqueue :: "pref \<Rightarrow> frame \<Rightarrow> world \<Rightarrow> world" where
  "enqueue p fr w = updPlayer p (\<lambda>pl. pl\<lparr>Send := Send pl @ [fr]\<rparr>) w"

definition SendMessage :: "pref \<Rightarrow> string \<Rightarrow> payload \<Rightarrow> world \<Rightarrow> world option" where
  "SendMessage p msgType dat w =
     (if Send_closed (playerHeap w p) then None
      else Some (enqueue p (Frame msgType dat) w))"

definition SendError :: "pref \<Rightarrow> string \<Rightarrow> world \<Rightarrow> world option" where
  "SendError p message w = SendMessage p ''error'' (MessageData message) w"

definition NewGame :: "string \<Rightarrow> pref \<Rightarrow> pref \<Rightarrow> Game" where
  "NewGame gameID p1 p2 =
     \<lparr>ID = gameID, Board = zeroBoard, Player1 = p1, Player2 = Some p2, IsBot = False,
      CurrentPlayer = Player1_mark, Status = ''playing'', Winner = 0\<rparr>"

definition NewBotGame :: "string \<Rightarrow> pref \<Rightarrow> Game" where
  "NewBotGame gameID p1 =
     \<lparr>ID = gameID, Board = zeroBoard, Player1 = p1, Player2 = None, IsBot = True,
      CurrentPlayer = Player1_mark, Status = ''playing'', Winner = 0\<rparr>"

definition getPlayerName :: "world \<Rightarrow> Game \<Rightarrow> pref option \<Rightarrow> string" where
  "getPlayerName w g p =
     (case p of Some q \<Rightarrow> Username (playerHeap w q)
      | None \<Rightarrow> if IsBot g then ''Bot'' else ''Unknown'')"

definition CreateState :: "world \<Rightarrow> Game \<Rightarrow> GameState" where
  "CreateState w g =
     GameState (ID g) (Board g) (Username (playerHeap w (Player1 g)))
       (getPlayerName w g (Player2 g)) (IsBot g) (CurrentPlayer g) (Status g) (Winner g)"

definition BroadcastState :: "gref \<Rightarrow> world \<Rightarrow> world option" where
  "BroadcastState gr w =
     (let g = gameHeap w gr; state = CreateState w g in
      do {
        w1 \<leftarrow> SendMessage (Player1 g) ''game_update'' (StateData state) w;
        (case Player2 g of
           Some p2 \<Rightarrow> if \<not> IsBot g then SendMessage p2 ''game_update'' (StateData state) w1
                      else Some w1
         | None \<Rightarrow> Some w1)
      })"

subsection \<open>The match: endGame, HandleMove, HandleDisconnect, HandleReconnect\<close>

definition endGame_stats :: "world \<Rightarrow> Game \<Rightarrow> int \<Rightarrow> effect list" where
  "endGame_stats w g winner =
     (let p1name = Username (playerHeap w (Player1 g));
          second = (\<lambda>won. case Player2 g of
                      Some p2 \<Rightarrow> if \<not> IsBot g
                                 then [UpdatePlayerStats (Username (playerHeap w p2)) won]
                                 else []
                    | None \<Rightarrow> [])
      in if winner = Player1_mark then UpdatePlayerStats p1name True # second False
         else if winner = Player2_mark then UpdatePlayerStats p1name False # second True
         else UpdatePlayerStats p1name False # second False)"

definition endGame_winnerUsername :: "world \<Rightarrow> Game \<Rightarrow> int \<Rightarrow> string" where
  "endGame_winnerUsername w g winner =
     (if winner = Player1_mark then Username (playerHeap w (Player1 g))
      else if winner = Player2_mark then getPlayerName w g (Player2 g)
      else ''Draw'')"

definition endGame :: "gref \<Rightarrow> int \<Rightarrow> world \<Rightarrow> world" where
  "endGame gr winner w =
     (let w1 = updGame gr (\<lambda>g. g\<lparr>Status := ''finished'', Winner := winner\<rparr>) w;
          g = gameHeap w1 gr;
          w2 = emit ([SaveGame gr] @ endGame_stats w1 g winner
                     @ [ProduceEvent ''game_ended''
                          [(''gameId'', S (ID g)),
                           (''winner'', S (endGame_winnerUsername w1 g winner)),
                           (''isBot'', B (IsBot g))]]) w1;
          w3 = w2\<lparr>games := (games w2)(ID g := None)\<rparr>;
          w4 = updPlayer (Player1 g) (\<lambda>pl. pl\<lparr>Game := None\<rparr>) w3
      in (case Player2 g of
            Some p2 \<Rightarrow> if \<not> IsBot g then updPlayer p2 (\<lambda>pl. pl\<lparr>Game := None\<rparr>) w4 else w4
          | None \<Rightarrow> w4))"

text \<open>
  The chain of comparisons that opens \<^verbatim>\<open>HandleMove\<close>. \<open>Inr n\<close>: the mover sits at mark \<open>n\<close>.
  \<open>Inl True\<close>: an unassociated player, logged and dropped. \<open>Inl False\<close>: that same branch
  with a nil player, where reading \<^verbatim>\<open>player.Username\<close> for the log line panics.
\<close>

definition HandleMove_playerNum :: "Game \<Rightarrow> pref option \<Rightarrow> bool + int" where
  "HandleMove_playerNum g player =
     (if player = Some (Player1 g) then Inr Player1_mark
      else if \<not> IsBot g \<and> player = Player2 g then Inr Player2_mark
      else if player = None \<and> IsBot g then Inr Player2_mark
      else Inl (player \<noteq> None))"

definition HandleMove_reject :: "pref option \<Rightarrow> string \<Rightarrow> world \<Rightarrow> world option" where
  "HandleMove_reject player message w =
     (case player of Some p \<Rightarrow> SendError p message w | None \<Rightarrow> Some w)"

definition HandleMove :: "gref \<Rightarrow> pref option \<Rightarrow> int \<Rightarrow> world \<Rightarrow> world option" where
  "HandleMove gr player col w =
     (let g = gameHeap w gr in
      if Status g \<noteq> ''playing'' then Some w
      else (case HandleMove_playerNum g player of
          Inl logged \<Rightarrow> if logged then Some w else None
        | Inr playerNum \<Rightarrow>
            if playerNum \<noteq> CurrentPlayer g then HandleMove_reject player ''It's not your turn.'' w
            else (case makeMove (Board g) col playerNum of
                Inl err \<Rightarrow> HandleMove_reject player err w
              | Inr (row, b') \<Rightarrow>
                  (let w1 = updGame gr (\<lambda>g. g\<lparr>Board := b'\<rparr>) w;
                       w2 = emit [ProduceEvent ''move_made''
                                    [(''gameId'', S (ID g)),
                                     (''player'', S (getPlayerName w1 g player)),
                                     (''column'', I col), (''row'', I row)]] w1
                   in if checkWin b' row col playerNum
                      then BroadcastState gr (endGame gr playerNum w2)
                      else if checkDraw b'
                      then BroadcastState gr (endGame gr Empty_mark w2)
                      else do {
                        w3 \<leftarrow> BroadcastState gr
                               (updGame gr (\<lambda>g. g\<lparr>CurrentPlayer := 3 - CurrentPlayer g\<rparr>) w2);
                        Some (if IsBot g \<and> CurrentPlayer (gameHeap w3 gr) = Player2_mark
                              then emit [Bot_MakeMove_go gr] w3 else w3)
                      }))))"

text \<open>
  \<^verbatim>\<open>Bot.MakeMove\<close> sleeps, asks the strategy for a column and moves as the nil player; the
  strategy's answer is the parameter \<open>col\<close>.
\<close>

definition Bot_MakeMove :: "gref \<Rightarrow> int \<Rightarrow> world \<Rightarrow> world option" where
  "Bot_MakeMove gr col w = HandleMove gr None col w"

definition HandleDisconnect :: "gref \<Rightarrow> pref \<Rightarrow> world \<Rightarrow> world" where
  "HandleDisconnect gr player w =
     (if Status (gameHeap w gr) \<noteq> ''playing'' then w
      else emit [AfterFunc (ReconnectTimer gr player)] w)"

text \<open>The closure armed by \<^verbatim>\<open>HandleDisconnect\<close>, run when the 30 seconds are over.\<close>

definition HandleDisconnect_expired :: "gref \<Rightarrow> pref \<Rightarrow> world \<Rightarrow> world option" where
  "HandleDisconnect_expired gr player w =
     (let g = gameHeap w gr in
      if Status g \<noteq> ''playing'' then Some w
      else BroadcastState gr
             (endGame gr (if player = Player1 g then Player2_mark else Player1_mark) w))"

definition HandleReconnect :: "gref \<Rightarrow> pref \<Rightarrow> conn \<Rightarrow> world \<Rightarrow> world option" where
  "HandleReconnect gr oldPlayer newConn w =
     (if Status (gameHeap w gr) \<noteq> ''playing''
      then SendError oldPlayer ''Game has already finished.'' w
      else if Send_closed (playerHeap w oldPlayer) then None
      else (let w1 = emit [Conn_Close (Conn (playerHeap w oldPlayer))] w;
                w2 = updPlayer oldPlayer (\<lambda>pl. pl\<lparr>Conn := newConn, Send := []\<rparr>) w1;
                w3 = emit [WriteMessages_go oldPlayer] w2
            in SendMessage oldPlayer ''reconnected''
                 (StateData (CreateState w3 (gameHeap w3 gr))) w3))"

subsection \<open>The manager: registration, matchmaking, private rooms\<close>

text \<open>
  What the environment decides is a parameter: \<open>gameID\<close> is the string of \<^verbatim>\<open>uuid.New()\<close>,
  \<open>draws\<close> are the successive results of \<^verbatim>\<open>rand.Intn(len(charset))\<close>, and \<open>order\<close> is the
  order in which \<^verbatim>\<open>range gm.PrivateRooms\<close> visits the keys, which Go leaves open.
\<close>

definition AddPlayer :: "pref \<Rightarrow> world \<Rightarrow> world option" where
  "AddPlayer player w = SendMessage player ''waiting'' NoData w"

definition startGame :: "pref \<Rightarrow> pref \<Rightarrow> string \<Rightarrow> world \<Rightarrow> world option" where
  "startGame p1 p2 gameID w =
     (let gr = nextGame w;
          w1 = w\<lparr>gameHeap := (gameHeap w)(gr := NewGame gameID p1 p2), nextGame := Suc gr\<rparr>;
          w2 = w1\<lparr>games := (games w1)(gameID \<mapsto> gr)\<rparr>;
          w3 = updPlayer p1 (\<lambda>pl. pl\<lparr>Game := Some gr\<rparr>) w2;
          w4 = updPlayer p2 (\<lambda>pl. pl\<lparr>Game := Some gr\<rparr>) w3
      in do {
        w5 \<leftarrow> BroadcastState gr w4;
        Some (emit [ProduceEvent ''game_started''
                      [(''gameId'', S gameID),
                       (''player1'', S (Username (playerHeap w5 p1))),
                       (''player2'', S (Username (playerHeap w5 p2))),
                       (''isBot'', B False)]] w5)
      })"

text \<open>The body of the matchmaking timer.\<close>

definition startBotGame :: "pref \<Rightarrow> string \<Rightarrow> world \<Rightarrow> world option" where
  "startBotGame player gameID w =
     (if waitingPlayer w \<noteq> Some player then Some w
      else (let gr = nextGame w;
                w1 = w\<lparr>waitingPlayer := None\<rparr>;
                w2 = w1\<lparr>gameHeap := (gameHeap w1)(gr := NewBotGame gameID player),
                        nextGame := Suc gr\<rparr>;
                w3 = w2\<lparr>games := (games w2)(gameID \<mapsto> gr)\<rparr>;
                w4 = updPlayer player (\<lambda>pl. pl\<lparr>Game := Some gr\<rparr>) w3
            in do {
              w5 \<leftarrow> BroadcastState gr w4;
              Some (emit [ProduceEvent ''game_started''
                            [(''gameId'', S gameID),
                             (''player1'', S (Username (playerHeap w5 player))),
                             (''player2'', S ''Bot''),
                             (''isBot'', B True)]] w5)
            }))"

definition handleJoin :: "pref \<Rightarrow> string \<Rightarrow> string \<Rightarrow> world \<Rightarrow> world option" where
  "handleJoin player username gameID w =
     (if username = [] then SendError player ''Username cannot be empty.'' w
      else if players w username \<noteq> None
      then SendError player
             ''Username already taken. Try 'reconnect' if you were in a game.'' w
      else (let w1 = updPlayer player (\<lambda>pl. pl\<lparr>Username := username\<rparr>) w;
                w2 = w1\<lparr>players := (players w1)(username \<mapsto> player)\<rparr>
            in case waitingPlayer w2 of
                 None \<Rightarrow> do {
                   w3 \<leftarrow> SendMessage player ''waiting'' NoData
                          (w2\<lparr>waitingPlayer := Some player\<rparr>);
                   Some (emit [AfterFunc (MatchmakingTimer player)] w3)
                 }
               | Some opponent \<Rightarrow>
                   if opponent = player then Some w2
                   else startGame opponent player gameID (w2\<lparr>waitingPlayer := None\<rparr>)))"

definition handleMove :: "pref \<Rightarrow> int \<Rightarrow> world \<Rightarrow> world option" where
  "handleMove player col w =
     (case Game (playerHeap w player) of
        None \<Rightarrow> SendError player ''You are not in a game.'' w
      | Some gr \<Rightarrow> HandleMove gr (Some player) col w)"

text \<open>
  \<^verbatim>\<open>handleReconnect\<close> starts a goroutine that drains and closes the new handle's channel
  and closes its connection; that goroutine is the function \<open>handleReconnect_discard\<close>.
\<close>

definition handleReconnect :: "pref \<Rightarrow> string \<Rightarrow> world \<Rightarrow> world option" where
  "handleReconnect player username w =
     (case players w username of
        None \<Rightarrow> SendError player ''No active game found to reconnect to.'' w
      | Some oldPlayer \<Rightarrow>
          (case Game (playerHeap w oldPlayer) of
             None \<Rightarrow> SendError player ''No active game found to reconnect to.'' w
           | Some gr \<Rightarrow>
               HandleReconnect gr oldPlayer (Conn (playerHeap w player))
                 (emit [DiscardHandle_go player] w)))"

definition handleReconnect_discard :: "pref \<Rightarrow> world \<Rightarrow> world option" where
  "handleReconnect_discard player w =
     (if Send_closed (playerHeap w player) then None
      else Some (emit [Conn_Close (Conn (playerHeap w player))]
                   (updPlayer player (\<lambda>pl. pl\<lparr>Send := [], Send_closed := True\<rparr>) w)))"

text \<open>
  The loop of \<^verbatim>\<open>UnregisterPlayer\<close> over the rooms: the first key visited that maps to the
  player is deleted, and the loop breaks.
\<close>

fun UnregisterPlayer_rooms :: "pref \<Rightarrow> string list \<Rightarrow> (string \<rightharpoonup> pref) \<Rightarrow> (string \<rightharpoonup> pref)" where
  "UnregisterPlayer_rooms player [] rooms = rooms"
| "UnregisterPlayer_rooms player (roomCode # rest) rooms =
     (if rooms roomCode = Some player then rooms(roomCode := None)
      else UnregisterPlayer_rooms player rest rooms)"

definition UnregisterPlayer :: "pref \<Rightarrow> string list \<Rightarrow> world \<Rightarrow> world option" where
  "UnregisterPlayer player order w =
     (if Username (playerHeap w player) = [] then Some w
      else (let w1 = w\<lparr>players := (players w)(Username (playerHeap w player) := None)\<rparr>;
                w2 = (if waitingPlayer w1 = Some player then w1\<lparr>waitingPlayer := None\<rparr> else w1);
                w3 = w2\<lparr>PrivateRooms := UnregisterPlayer_rooms player order (PrivateRooms w2)\<rparr>;
                w4 = (case Game (playerHeap w3 player) of
                        Some gr \<Rightarrow> HandleDisconnect gr player w3
                      | None \<Rightarrow> w3)
            in if Send_closed (playerHeap w4 player) then None
               else Some (updPlayer player (\<lambda>pl. pl\<lparr>Send_closed := True\<rparr>) w4)))"

definition charset :: string where
  "charset = ''ABCDEFGHIJKLMNOPQRSTUVWXYZ0123456789''"

definition codeLength :: nat where "codeLength = 6"

text \<open>
  \<^verbatim>\<open>generateRoomCode\<close> draws six characters and tries again while the code is taken. With
  the draws given as a list, \<open>None\<close> says that the loop has not returned when they are used
  up. A draw is a result of \<^verbatim>\<open>rand.Intn(36)\<close>, hence below 36.
\<close>

function generateRoomCode :: "(string \<rightharpoonup> pref) \<Rightarrow> nat list \<Rightarrow> string option" where
  "generateRoomCode rooms draws =
     (if length draws < codeLength then None
      else (let roomCode = map (\<lambda>d. charset ! d) (take codeLength draws)
            in if rooms roomCode = None then Some roomCode
               else generateRoomCode rooms (drop codeLength draws)))"
  by pat_completeness auto
termination
  by (relation "measure (\<lambda>(rooms, draws). length draws)") (auto simp: codeLength_def)

declare generateRoomCode.simps [simp del]

definition handleCreatePrivateRoom :: "pref \<Rightarrow> string \<Rightarrow> nat list \<Rightarrow> world \<Rightarrow> world option" where
  "handleCreatePrivateRoom player username draws w =
     (if username = [] then SendError player ''Username cannot be empty.'' w
      else (case generateRoomCode (PrivateRooms w) draws of
          None \<Rightarrow> None
        | Some roomCode \<Rightarrow>
            if players w username \<noteq> None then SendError player ''Username already taken.'' w
            else (let w1 = updPlayer player (\<lambda>pl. pl\<lparr>Username := username\<rparr>) w;
                      w2 = w1\<lparr>players := (players w1)(username \<mapsto> player)\<rparr>;
                      w3 = w2\<lparr>PrivateRooms := (PrivateRooms w2)(roomCode \<mapsto> player)\<rparr>
                  in do {
                    w4 \<leftarrow> SendMessage player ''private_room_created'' (RoomCodeData roomCode) w3;
                    Some (emit [AfterFunc (RoomTimer roomCode player)] w4)
                  })))"

text \<open>The body of the room-expiry timer armed by \<^verbatim>\<open>handleCreatePrivateRoom\<close>.\<close>

definition handleCreatePrivateRoom_expired :: "string \<Rightarrow> pref \<Rightarrow> world \<Rightarrow> world option" where
  "handleCreatePrivateRoom_expired roomCode player w =
     (if PrivateRooms w roomCode = Some player
      then SendMessage player ''private_room_expired''
             (MessageData ''No one joined your room. It has expired.'')
             (w\<lparr>PrivateRooms := (PrivateRooms w)(roomCode := None)\<rparr>)
      else Some w)"

definition handleJoinPrivateRoom ::
  "pref \<Rightarrow> string \<Rightarrow> string \<Rightarrow> string \<Rightarrow> world \<Rightarrow> world option" where
  "handleJoinPrivateRoom player username roomCode gameID w =
     (if username = [] then SendError player ''Username cannot be empty.'' w
      else if roomCode = [] then SendError player ''Room code cannot be empty.'' w
      else if players w username \<noteq> None then SendError player ''Username already taken.'' w
      else (case PrivateRooms w roomCode of
          None \<Rightarrow> SendError player ''Invalid or expired room code.'' w
        | Some roomHost \<Rightarrow>
            if Username (playerHeap w roomHost) = username
            then SendError player ''You cannot join your own room.'' w
            else (let w1 = updPlayer player (\<lambda>pl. pl\<lparr>Username := username\<rparr>) w;
                      w2 = w1\<lparr>players := (players w1)(username \<mapsto> player)\<rparr>;
                      w3 = w2\<lparr>PrivateRooms := (PrivateRooms w2)(roomCode := None)\<rparr>
                  in startGame roomHost player gameID w3)))"

text \<open>
  A timer that fires runs its closure on the state of that moment; the matchmaking timer
  needs the identifier of the game it may create.
\<close>

fun fire :: "timer \<Rightarrow> string \<Rightarrow> world \<Rightarrow> world option" where
  "fire (MatchmakingTimer player) gameID w = startBotGame player gameID w"
| "fire (RoomTimer roomCode player) gameID w = handleCreatePrivateRoom_expired roomCode player w"
| "fire (ReconnectTimer gr player) gameID w = HandleDisconnect_expired gr player w"

text \<open>
  \<^verbatim>\<open>HandleMessage\<close> on a frame that \<^verbatim>\<open>json.Unmarshal\<close> has decoded (\<open>None\<close>: it could not).
\<close>

record Message =
  Type :: string
  msg_Username :: string
  Column :: int
  RoomCode :: string

definition HandleMessage ::
  "pref \<Rightarrow> Message option \<Rightarrow> string \<Rightarrow> nat list \<Rightarrow> world \<Rightarrow> world option" where
  "HandleMessage player rawMsg gameID draws w =
     (case rawMsg of
        None \<Rightarrow> SendError player ''Invalid message format.'' w
      | Some msg \<Rightarrow>
          if Type msg = ''join'' then handleJoin player (msg_Username msg) gameID w
          else if Type msg = ''move'' then handleMove player (Column msg) w
          else if Type msg = ''reconnect'' then handleReconnect player (msg_Username msg) w
          else if Type msg = ''create_private_room''
          then handleCreatePrivateRoom player (msg_Username msg) draws w
          else if Type msg = ''join_private_room''
          then handleJoinPrivateRoom player (msg_Username msg) (RoomCode msg) gameID w
          else SendError player ''Unknown message type.'' w)"

subsection \<open>Events of a run\<close>

text \<open>
  Everything that happens to the process is one of these events, each handled under the
  lock of the manager or of the match: a connection is accepted, a frame arrives, a read
  loop ends, a timer fires, the bot moves, the goroutine of \<^verbatim>\<open>handleReconnect\<close> runs.
  A timer, a bot move and that goroutine can happen only after they have been started,
  which the effects record. Each event runs to completion before the next one; the
  interleavings inside a handler (the parts of \<^verbatim>\<open>handleMove\<close> and \<^verbatim>\<open>handleCreatePrivateRoom\<close>
  that run outside the locks) are not modelled.
\<close>

datatype event =
    Connect pref
  | Receive pref "Message option" string "nat list"
  | Disconnect pref "string list"
  | Fire timer string
  | BotMove gref int
  | Discard pref

fun step :: "event \<Rightarrow> world \<Rightarrow> world option" where
  "step (Connect p) w = AddPlayer p w"
| "step (Receive p rawMsg gameID draws) w = HandleMessage p rawMsg gameID draws w"
| "step (Disconnect p order) w = UnregisterPlayer p order w"
| "step (Fire t gameID) w = fire t gameID w"
| "step (BotMove gr col) w = Bot_MakeMove gr col w"
| "step (Discard p) w = handleReconnect_discard p w"

fun enabled :: "event \<Rightarrow> world \<Rightarrow> bool" where
  "enabled (Fire t gameID) w \<longleftrightarrow> AfterFunc t \<in> set (effects w)"
| "enabled (BotMove gr col) w \<longleftrightarrow> Bot_MakeMove_go gr \<in> set (effects w)"
| "enabled (Discard p) w \<longleftrightarrow> DiscardHandle_go p \<in> set (effects w)"
| "enabled e w \<longleftrightarrow> True"

text \<open>
  The state at start-up: empty registries, no game allocated, every handle as \<^verbatim>\<open>NewPlayer\<close>
  makes it (the handle at address \<open>p\<close> wraps connection \<open>p\<close>). The game store holds a zero
  board at the addresses not yet allocated.
\<close>

definition initWorld :: world where
  "initWorld =
     \<lparr>players = Map.empty, games = Map.empty, waitingPlayer = None,
      PrivateRooms = Map.empty, playerHeap = NewPlayer,
      gameHeap = (\<lambda>gr. NewBotGame [] 0), nextGame = 0, effects = []\<rparr>"

inductive reachable :: "world \<Rightarrow> bool" where
  reachable_init: "reachable initWorld"
| reachable_step: "reachable w \<Longrightarrow> enabled e w \<Longrightarrow> step e w = Some w' \<Longrightarrow> reachable w'"

text \<open>A run: the events happen in order, each one enabled when it happens; a panic ends it.\<close>

fun run :: "event list \<Rightarrow> world \<Rightarrow> world option" where
  "run [] w = Some w"
| "run (e # es) w =
     (if enabled e w then (case step e w of None \<Rightarrow> None | Some w' \<Rightarrow> run es w') else None)"

section \<open>Notions the properties are stated with\<close>

text \<open>
  A run of four: the cells \<open>(r + k * dr, c + k * dc)\<close> for \<open>k = 0..3\<close> lie on the board and
  carry the mark \<open>p\<close>. The four directions are along a row, along a column and along the
  two diagonals.
\<close>

definition directions :: "(int \<times> int) list" where
  "directions = [(0, 1), (1, 0), (1, 1), (- 1, 1)]"

definition run4 :: "board \<Rightarrow> int \<Rightarrow> int \<Rightarrow> int \<Rightarrow> int \<Rightarrow> int \<Rightarrow> bool" where
  "run4 b p r c dr dc \<longleftrightarrow>
     (\<forall>k \<in> {0..3}. in_board (r + k * dr) (c + k * dc) \<and> cell b (r + k * dr) (c + k * dc) = p)"

definition run4_through :: "board \<Rightarrow> int \<Rightarrow> int \<Rightarrow> int \<Rightarrow> bool" where
  "run4_through b p r c \<longleftrightarrow>
     (\<exists>(dr, dc) \<in> set directions. \<exists>j \<in> {0..3}. run4 b p (r - j * dr) (c - j * dc) dr dc)"

definition has_run4 :: "board \<Rightarrow> int \<Rightarrow> bool" where
  "has_run4 b p \<longleftrightarrow>
     (\<exists>r \<in> {0..<Rows}. \<exists>c \<in> {0..<Cols}. \<exists>(dr, dc) \<in> set directions. run4 b p r c dr dc)"

definition gravity :: "board \<Rightarrow> bool" where
  "gravity b \<longleftrightarrow>
     (\<forall>c \<in> {0..<Cols}. \<forall>r \<in> {0..<Rows - 1}.
        cell b r c \<noteq> Empty_mark \<longrightarrow> cell b (r + 1) c \<noteq> Empty_mark)"

definition board_full :: "board \<Rightarrow> bool" where
  "board_full b \<longleftrightarrow> (\<forall>r \<in> {0..<Rows}. \<forall>c \<in> {0..<Cols}. cell b r c \<noteq> Empty_mark)"

definition column_full :: "board \<Rightarrow> int \<Rightarrow> bool" where
  "column_full b col \<longleftrightarrow> (\<forall>r \<in> {0..<Rows}. cell b r col \<noteq> Empty_mark)"

text \<open>
  The boards a match can show: the zero board of a new match, and what \<^verbatim>\<open>makeMove\<close> makes
  of such a board for one of the two marks.
\<close>

inductive_set boards :: "board set" where
  boards_new: "zeroBoard \<in> boards"
| boards_move:
    "b \<in> boards \<Longrightarrow> playerNum = Player1_mark \<or> playerNum = Player2_mark \<Longrightarrow>
     makeMove b col playerNum = Inr (row, b') \<Longrightarrow> b' \<in> boards"

text \<open>
  The shape common to the four scans of \<^verbatim>\<open>checkWin\<close>, over a line of cells \<open>f 0, f 1, ...\<close>
  of length \<open>n\<close>; used only to reason about them.
\<close>

function scanRun :: "(int \<Rightarrow> int) \<Rightarrow> int \<Rightarrow> int \<Rightarrow> int \<Rightarrow> int \<Rightarrow> bool" where
  "scanRun f p n k count =
     (if k < n
      then (if f k = p
            then (if count + 1 \<ge> 4 then True else scanRun f p n (k + 1) (count + 1))
            else scanRun f p n (k + 1) 0)
      else False)"
  by pat_completeness auto
termination
  by (relation "measure (\<lambda>(f, p, n, k, count). nat (n - k))") auto

declare scanRun.simps [simp del]

text \<open>
  The handles to which \<^verbatim>\<open>BroadcastState\<close> sends, and the condition that none of their
  channels has been closed, without which a broadcast panics.
\<close>

definition recipients :: "world \<Rightarrow> gref \<Rightarrow> pref list" where
  "recipients w gr =
     (let g = gameHeap w gr
      in Player1 g # (case Player2 g of Some p2 \<Rightarrow> if \<not> IsBot g then [p2] else [] | None \<Rightarrow> []))"

definition connected :: "world \<Rightarrow> gref \<Rightarrow> bool" where
  "connected w gr \<longleftrightarrow> (\<forall>p \<in> set (recipients w gr). \<not> Send_closed (playerHeap w p))"

text \<open>
  The state in which \<^verbatim>\<open>HandleMove\<close> has put the mark of an accepted move on the board and
  handed the \<^verbatim>\<open>move_made\<close> event to the analytics goroutine: the state on which it then
  decides between win, draw and the next turn.
\<close>

definition placed :: "gref \<Rightarrow> pref option \<Rightarrow> int \<Rightarrow> int \<Rightarrow> board \<Rightarrow> world \<Rightarrow> world" where
  "placed gr player col row b' w =
     (let g = gameHeap w gr;
          w1 = updGame gr (\<lambda>g. g\<lparr>Board := b'\<rparr>) w
      in emit [ProduceEvent ''move_made''
                 [(''gameId'', S (ID g)), (''player'', S (getPlayerName w1 g player)),
                  (''column'', I col), (''row'', I row)]] w1)"

text \<open>
  \<open>frozen gr w w'\<close>: from \<open>w\<close> to \<open>w'\<close> the match at \<open>gr\<close> has not changed, \<^verbatim>\<open>endGame\<close> has
  not been applied to it (each application hands the match to \<^verbatim>\<open>SaveGame\<close>), and no
  address has been given back.
\<close>

definition frozen :: "gref \<Rightarrow> world \<Rightarrow> world \<Rightarrow> bool" where
  "frozen gr w w' \<longleftrightarrow>
     gameHeap w' gr = gameHeap w gr \<and>
     count_list (effects w') (SaveGame gr) = count_list (effects w) (SaveGame gr) \<and>
     nextGame w \<le> nextGame w'"

text \<open>\<open>boards_ok w\<close>: every match in the store shows one of the boards above.\<close>

definition boards_ok :: "world \<Rightarrow> bool" where
  "boards_ok w \<longleftrightarrow> (\<forall>gr. Board (gameHeap w gr) \<in> boards)"

section \<open>Sample runs\<close>

definition join_msg :: "string \<Rightarrow> Message option" where
  "join_msg u = Some \<lparr>Type = ''join'', msg_Username = u, Column = 0, RoomCode = []\<rparr>"

definition move_msg :: "int \<Rightarrow> Message option" where
  "move_msg c = Some \<lparr>Type = ''move'', msg_Username = [], Column = c, RoomCode = []\<rparr>"

definition reconnect_msg :: "string \<Rightarrow> Message option" where
  "reconnect_msg u = Some \<lparr>Type = ''reconnect'', msg_Username = u, Column = 0, RoomCode = []\<rparr>"

definition create_msg :: "string \<Rightarrow> Message option" where
  "create_msg u =
     Some \<lparr>Type = ''create_private_room'', msg_Username = u, Column = 0, RoomCode = []\<rparr>"

definition joinroom_msg :: "string \<Rightarrow> string \<Rightarrow> Message option" where
  "joinroom_msg u c =
     Some \<lparr>Type = ''join_private_room'', msg_Username = u, Column = 0, RoomCode = c\<rparr>"

text \<open>
  Two connections join as alice (handle 0) and bob (handle 1) and are paired in match 0;
  then they move in turn, alice first, in the columns given.
\<close>

definition ev_lobby :: "event list" where
  "ev_lobby =
     [Connect 0, Receive 0 (join_msg ''alice'') [] [],
      Connect 1, Receive 1 (join_msg ''bob'') ''g1'' []]"

definition moves :: "int list \<Rightarrow> event list" where
  "moves cs = map (\<lambda>(i, c). Receive (i mod 2) (move_msg c) [] []) (zip [0..<length cs] cs)"

definition after_moves :: "int list \<Rightarrow> world" where
  "after_moves cs = the (run (ev_lobby @ moves cs) initWorld)"

text \<open>
  Alice has three marks in column 3 and is to move (\<open>w_three\<close>); her fourth mark there
  gives \<open>board_alice_four\<close>. In \<open>w_colfull\<close> column 3 is full and alice is to move.
\<close>

definition w_three :: world where
  "w_three = after_moves [3, 2, 3, 2, 3, 2]"

definition board_alice_four :: board where
  "board_alice_four =
     [[0, 0, 0, 0, 0, 0, 0], [0, 0, 0, 0, 0, 0, 0],
      [0, 0, 0, 1, 0, 0, 0], [0, 0, 2, 1, 0, 0, 0],
      [0, 0, 2, 1, 0, 0, 0], [0, 0, 2, 1, 0, 0, 0]]"

definition w_colfull :: world where
  "w_colfull = after_moves [3, 3, 3, 3, 3, 3]"

text \<open>\<open>w_three_dropped\<close>: as \<open>w_three\<close>, but bob's read loop has ended since his last move.\<close>

definition w_three_dropped :: world where
  "w_three_dropped =
     the (run (ev_lobby @ moves [3, 2, 3, 2, 3, 2] @ [Disconnect 1 []]) initWorld)"

text \<open>
  A full board without a run of four, and a state one cell short of it: alice (handle 0)
  against bob (handle 1), bob to move, the cell in row 0 of column 5 open.
\<close>

definition board_drawn :: board where
  "board_drawn =
     [[2, 2, 1, 2, 1, 2, 1], [1, 2, 1, 2, 1, 2, 1],
      [2, 1, 2, 1, 2, 1, 2], [2, 1, 2, 1, 2, 1, 2],
      [1, 2, 1, 2, 1, 2, 1], [1, 2, 1, 2, 1, 2, 1]]"

definition w_last_cell :: world where
  "w_last_cell =
     \<lparr>players = [''alice'' \<mapsto> 0, ''bob'' \<mapsto> 1], games = [''g1'' \<mapsto> 0],
      waitingPlayer = None, PrivateRooms = Map.empty,
      playerHeap = NewPlayer
        (0 := \<lparr>Username = ''alice'', Conn = 0, Game = Some 0, Send = [], Send_closed = False\<rparr>,
         1 := \<lparr>Username = ''bob'', Conn = 1, Game = Some 0, Send = [], Send_closed = False\<rparr>),
      gameHeap = (\<lambda>gr. NewBotGame [] 0)
        (0 := \<lparr>ID = ''g1'', Board = setCell board_drawn 0 5 0, Player1 = 0, Player2 = Some 1,
               IsBot = False, CurrentPlayer = 2, Status = ''playing'', Winner = 0\<rparr>),
      nextGame = 1, effects = []\<rparr>"

text \<open>\<open>w_last_cell_dropped\<close>: as \<open>w_last_cell\<close>, after alice's read loop has ended.\<close>

definition w_last_cell_dropped :: world where
  "w_last_cell_dropped = the (run [Disconnect 0 []] w_last_cell)"

text \<open>
  \<open>w_won\<close>: alice has placed her fourth mark in column 3. \<open>w_alone\<close>: alice waits, a second
  connection is open. \<open>w_room\<close>: handle 0 hosts room \<^verbatim>\<open>AAAAAA\<close> as \<^verbatim>\<open>hoa\<close>, a second connection
  is open.
\<close>

definition w_won :: world where
  "w_won = after_moves [3, 2, 3, 2, 3, 2, 3]"

definition w_alone :: world where
  "w_alone = the (run [Connect 0, Receive 0 (join_msg ''alice'') [] [], Connect 1] initWorld)"

definition w_room :: world where
  "w_room =
     the (run [Connect 0, Receive 0 (create_msg ''hoa'') [] [0, 0, 0, 0, 0, 0], Connect 1]
            initWorld)"

text \<open>
  \<open>ev_drop\<close>: alice and bob play, alice's read loop ends, and a new connection (handle 2)
  is accepted; \<open>w_refused\<close> is the state \<open>w_drop\<close> reached with an error frame added to
  the channel of handle 2. \<open>ev_rooms order\<close>: one connection creates a room as \<^verbatim>\<open>a\<close> (code \<^verbatim>\<open>AAAAAA\<close>) and
  a second one as \<^verbatim>\<open>b\<close> (code \<^verbatim>\<open>BBBBBB\<close>), then its read loop ends, the rooms being visited in
  the given order.
\<close>

definition ev_drop :: "event list" where
  "ev_drop = ev_lobby @ [Disconnect 0 [], Connect 2]"

definition w_drop :: world where
  "w_drop = the (run ev_drop initWorld)"

definition w_refused :: world where
  "w_refused =
     enqueue 2 (Frame ''error'' (MessageData ''No active game found to reconnect to.'')) w_drop"

definition ev_rooms :: "string list \<Rightarrow> event list" where
  "ev_rooms order =
     [Connect 0, Receive 0 (create_msg ''a'') [] [0, 0, 0, 0, 0, 0],
      Receive 0 (create_msg ''b'') [] [1, 1, 1, 1, 1, 1], Disconnect 0 order]"

definition w_rooms :: "string list \<Rightarrow> world" where
  "w_rooms order = the (run (ev_rooms order) initWorld)"

section \<open>The board engine: placing a mark\<close>

lemma cell_setCell:
  "wf_board b \<Longrightarrow> in_board r c \<Longrightarrow> in_board r' c' \<Longrightarrow>
   cell (setCell b r c v) r' c' = (if r' = r \<and> c' = c then v else cell b r' c')"
  by (auto simp: cell_def setCell_def wf_board_def in_board_def Rows_def Cols_def nth_list_update)

lemma wf_setCell: "wf_board b \<Longrightarrow> wf_board (setCell b r c v)"
proof (cases "nat r < length b")
  case True
  assume "wf_board b"
  with True show ?thesis
    unfolding wf_board_def setCell_def
    by (auto dest!: subsetD[OF set_update_subset_insert])
next
  case False
  assume "wf_board b"
  with False show ?thesis
    by (simp add: setCell_def list_update_beyond)
qed

lemma wf_zeroBoard: "wf_board zeroBoard"
  by (simp add: wf_board_def zeroBoard_def)

lemma cell_zeroBoard: "in_board r c \<Longrightarrow> cell zeroBoard r c = Empty_mark"
  by (auto simp: cell_def zeroBoard_def in_board_def Rows_def Cols_def)

lemma makeMove_loop_Some:
  "makeMove_loop b col r0 = Some r \<Longrightarrow>
   0 \<le> r \<and> r \<le> r0 \<and> cell b r col = Empty_mark \<and>
   (\<forall>r'. r < r' \<and> r' \<le> r0 \<longrightarrow> cell b r' col \<noteq> Empty_mark)"
proof (induction b col r0 rule: makeMove_loop.induct)
  case (1 b col r0)
  show ?case
  proof (cases "r0 \<ge> 0 \<and> cell b r0 col \<noteq> Empty_mark")
    case True
    with "1.prems" have "makeMove_loop b col (r0 - 1) = Some r"
      by (subst (asm) makeMove_loop.simps) simp
    with "1.IH" True have IH: "0 \<le> r \<and> r \<le> r0 - 1 \<and> cell b r col = Empty_mark \<and>
      (\<forall>r'. r < r' \<and> r' \<le> r0 - 1 \<longrightarrow> cell b r' col \<noteq> Empty_mark)" by simp
    have "\<And>r'. r < r' \<Longrightarrow> r' \<le> r0 \<Longrightarrow> cell b r' col \<noteq> Empty_mark"
    proof -
      fix r' assume "r < r'" "r' \<le> r0"
      then consider "r' \<le> r0 - 1" | "r' = r0" by linarith
      then show "cell b r' col \<noteq> Empty_mark" using IH True \<open>r < r'\<close> by cases auto
    qed
    with IH show ?thesis by auto
  next
    case False
    with "1.prems" show ?thesis
      by (subst (asm) makeMove_loop.simps) (auto split: if_splits)
  qed
qed

lemma makeMove_loop_None:
  "makeMove_loop b col r0 = None \<longleftrightarrow> (\<forall>r'. 0 \<le> r' \<and> r' \<le> r0 \<longrightarrow> cell b r' col \<noteq> Empty_mark)"
proof (induction b col r0 rule: makeMove_loop.induct)
  case (1 b col r0)
  show ?case
  proof (cases "r0 \<ge> 0")
    case False
    then show ?thesis by (subst makeMove_loop.simps) auto
  next
    case True
    show ?thesis
    proof (cases "cell b r0 col = Empty_mark")
      case True
      with \<open>r0 \<ge> 0\<close> show ?thesis by (subst makeMove_loop.simps) auto
    next
      case False
      with \<open>r0 \<ge> 0\<close> have "makeMove_loop b col r0 = makeMove_loop b col (r0 - 1)"
        by (subst makeMove_loop.simps) simp
      moreover have "(\<forall>r'. 0 \<le> r' \<and> r' \<le> r0 \<longrightarrow> cell b r' col \<noteq> Empty_mark)
         \<longleftrightarrow> (\<forall>r'. 0 \<le> r' \<and> r' \<le> r0 - 1 \<longrightarrow> cell b r' col \<noteq> Empty_mark)"
      proof
        assume "\<forall>r'. 0 \<le> r' \<and> r' \<le> r0 \<longrightarrow> cell b r' col \<noteq> Empty_mark"
        then show "\<forall>r'. 0 \<le> r' \<and> r' \<le> r0 - 1 \<longrightarrow> cell b r' col \<noteq> Empty_mark" by auto
      next
        assume a: "\<forall>r'. 0 \<le> r' \<and> r' \<le> r0 - 1 \<longrightarrow> cell b r' col \<noteq> Empty_mark"
        show "\<forall>r'. 0 \<le> r' \<and> r' \<le> r0 \<longrightarrow> cell b r' col \<noteq> Empty_mark"
        proof (intro allI impI)
          fix r' assume "0 \<le> r' \<and> r' \<le> r0"
          then consider "r' \<le> r0 - 1" "0 \<le> r'" | "r' = r0" by linarith
          then show "cell b r' col \<noteq> Empty_mark" using a False by cases auto
        qed
      qed
      ultimately show ?thesis using "1.IH" True False by simp
    qed
  qed
qed

lemma checkDraw_loop_iff:
  "checkDraw_loop b c0 \<longleftrightarrow> (\<forall>c. c0 \<le> c \<and> c < Cols \<longrightarrow> cell b 0 c \<noteq> Empty_mark)"
proof (induction b c0 rule: checkDraw_loop.induct)
  case (1 b c0)
  show ?case
  proof (cases "c0 < Cols")
    case False
    then show ?thesis by (subst checkDraw_loop.simps) auto
  next
    case True
    show ?thesis
    proof (cases "cell b 0 c0 = Empty_mark")
      case True
      with \<open>c0 < Cols\<close> show ?thesis by (subst checkDraw_loop.simps) auto
    next
      case False
      with True have "checkDraw_loop b c0 = checkDraw_loop b (c0 + 1)"
        by (subst checkDraw_loop.simps) simp
      also have "\<dots> \<longleftrightarrow> (\<forall>c. c0 + 1 \<le> c \<and> c < Cols \<longrightarrow> cell b 0 c \<noteq> Empty_mark)"
        using "1.IH" True False by simp
      also have "\<dots> \<longleftrightarrow> (\<forall>c. c0 \<le> c \<and> c < Cols \<longrightarrow> cell b 0 c \<noteq> Empty_mark)"
      proof
        assume a: "\<forall>c. c0 + 1 \<le> c \<and> c < Cols \<longrightarrow> cell b 0 c \<noteq> Empty_mark"
        show "\<forall>c. c0 \<le> c \<and> c < Cols \<longrightarrow> cell b 0 c \<noteq> Empty_mark"
        proof (intro allI impI)
          fix c assume "c0 \<le> c \<and> c < Cols"
          then consider "c0 + 1 \<le> c" "c < Cols" | "c = c0" by linarith
          then show "cell b 0 c \<noteq> Empty_mark" using a False by cases auto
        qed
      qed auto
      finally show ?thesis .
    qed
  qed
qed

lemma checkDraw_iff: "checkDraw b \<longleftrightarrow> (\<forall>c. 0 \<le> c \<and> c < Cols \<longrightarrow> cell b 0 c \<noteq> Empty_mark)"
  by (simp add: checkDraw_def checkDraw_loop_iff)

lemma makeMove_Inr:
  assumes "makeMove b col p = Inr (r, b')"
  shows "in_board r col" "cell b r col = Empty_mark"
    "\<forall>r'. r < r' \<and> r' < Rows \<longrightarrow> cell b r' col \<noteq> Empty_mark"
    "b' = setCell b r col p"
proof -
  from assms have col: "0 \<le> col" "col < Cols"
    and loop: "makeMove_loop b col (Rows - 1) = Some r" and b': "b' = setCell b r col p"
    by (auto simp: makeMove_def split: if_splits option.splits)
  from makeMove_loop_Some[OF loop] col
  show "in_board r col" "cell b r col = Empty_mark"
    "\<forall>r'. r < r' \<and> r' < Rows \<longrightarrow> cell b r' col \<noteq> Empty_mark"
    by (auto simp: in_board_def)
  show "b' = setCell b r col p" by (rule b')
qed

lemma makeMove_full:
  "0 \<le> col \<Longrightarrow> col < Cols \<Longrightarrow>
   makeMove b col p = Inl ''Column is full'' \<longleftrightarrow> (\<forall>r. 0 \<le> r \<and> r < Rows \<longrightarrow> cell b r col \<noteq> Empty_mark)"
proof -
  assume col: "0 \<le> col" "col < Cols"
  have "makeMove b col p = Inl ''Column is full'' \<longleftrightarrow> makeMove_loop b col (Rows - 1) = None"
    using col by (auto simp: makeMove_def split: option.splits)
  also have "\<dots> \<longleftrightarrow> (\<forall>r. 0 \<le> r \<and> r \<le> Rows - 1 \<longrightarrow> cell b r col \<noteq> Empty_mark)"
    by (rule makeMove_loop_None)
  also have "\<dots> \<longleftrightarrow> (\<forall>r. 0 \<le> r \<and> r < Rows \<longrightarrow> cell b r col \<noteq> Empty_mark)"
    by auto
  finally show ?thesis .
qed

lemma gravity_cells:
  "gravity b \<longleftrightarrow> (\<forall>r c. in_board r c \<and> r + 1 < Rows \<and> cell b r c \<noteq> Empty_mark
      \<longrightarrow> cell b (r + 1) c \<noteq> Empty_mark)"
  by (auto simp: gravity_def in_board_def)

lemma board_full_cells:
  "board_full b \<longleftrightarrow> (\<forall>r c. in_board r c \<longrightarrow> cell b r c \<noteq> Empty_mark)"
  by (auto simp: board_full_def in_board_def)

lemma gravity_zeroBoard: "gravity zeroBoard"
  unfolding gravity_cells
proof (intro allI impI)
  fix r c assume a: "in_board r c \<and> r + 1 < Rows \<and> cell zeroBoard r c \<noteq> Empty_mark"
  then have "cell zeroBoard r c = Empty_mark" by (simp add: cell_zeroBoard)
  with a show "cell zeroBoard (r + 1) c \<noteq> Empty_mark" by simp
qed

lemma gravity_makeMove:
  assumes wf: "wf_board b" and g: "gravity b" and p: "p \<noteq> Empty_mark"
    and mv: "makeMove b col p = Inr (r, b')"
  shows "gravity b'"
  unfolding gravity_cells
proof (intro allI impI)
  fix r' c' assume a: "in_board r' c' \<and> r' + 1 < Rows \<and> cell b' r' c' \<noteq> Empty_mark"
  note m = makeMove_Inr[OF mv]
  from a have inb: "in_board r' c'" and inb1: "in_board (r' + 1) c'"
    by (auto simp: in_board_def)
  have c1: "cell b' (r' + 1) c' = (if r' + 1 = r \<and> c' = col then p else cell b (r' + 1) c')"
    unfolding m(4) by (rule cell_setCell[OF wf m(1) inb1])
  have c0: "cell b' r' c' = (if r' = r \<and> c' = col then p else cell b r' c')"
    unfolding m(4) by (rule cell_setCell[OF wf m(1) inb])
  show "cell b' (r' + 1) c' \<noteq> Empty_mark"
  proof (cases "r' = r \<and> c' = col")
    case True
    then have "cell b (r' + 1) c' \<noteq> Empty_mark" using m(3) a by auto
    with True c1 show ?thesis by simp
  next
    case False
    then have "cell b r' c' \<noteq> Empty_mark" using a c0 by auto
    then have "cell b (r' + 1) c' \<noteq> Empty_mark" using g a unfolding gravity_cells by blast
    with c1 p show ?thesis by auto
  qed
qed

lemma wf_makeMove: "wf_board b \<Longrightarrow> makeMove b col p = Inr (r, b') \<Longrightarrow> wf_board b'"
  using makeMove_Inr(4) wf_setCell by blast

lemma boards_wf_gravity: "b \<in> boards \<Longrightarrow> wf_board b \<and> gravity b"
proof (induction rule: boards.induct)
  case boards_new
  show ?case by (simp add: wf_zeroBoard gravity_zeroBoard)
next
  case (boards_move b playerNum col row b')
  then have "playerNum \<noteq> Empty_mark"
    by (auto simp: Player1_mark_def Player2_mark_def Empty_mark_def)
  with boards_move show ?case
    using gravity_makeMove wf_makeMove by blast
qed

lemma gravity_column:
  assumes g: "gravity b" and top: "cell b 0 c \<noteq> Empty_mark" and c: "0 \<le> c" "c < Cols"
  shows "0 \<le> r \<Longrightarrow> r < Rows \<Longrightarrow> cell b r c \<noteq> Empty_mark"
proof (induction r rule: int_ge_induct)
  case base
  show ?case by (rule top)
next
  case (step i)
  then have "in_board i c \<and> i + 1 < Rows \<and> cell b i c \<noteq> Empty_mark"
    using c by (auto simp: in_board_def)
  with g show ?case unfolding gravity_cells by blast
qed

lemma gravity_checkDraw: "gravity b \<Longrightarrow> checkDraw b \<longleftrightarrow> board_full b"
proof
  assume g: "gravity b" and d: "checkDraw b"
  show "board_full b"
    unfolding board_full_cells
  proof (intro allI impI)
    fix r c assume "in_board r c"
    then have rc: "0 \<le> r" "r < Rows" "0 \<le> c" "c < Cols" by (auto simp: in_board_def)
    with d have "cell b 0 c \<noteq> Empty_mark" by (simp add: checkDraw_iff)
    from gravity_column[OF g this rc(3,4) rc(1,2)] show "cell b r c \<noteq> Empty_mark" .
  qed
next
  assume "board_full b"
  then show "checkDraw b"
    by (auto simp: board_full_cells checkDraw_iff in_board_def Rows_def)
qed


section \<open>The board engine: detecting a run of four\<close>

lemma scanRun_complete:
  "0 \<le> count \<Longrightarrow> k \<le> s + 3 \<Longrightarrow> k - s \<le> count \<Longrightarrow> s + 3 < n \<Longrightarrow>
   (\<forall>j. s \<le> j \<and> j \<le> s + 3 \<longrightarrow> f j = p) \<Longrightarrow> scanRun f p n k count"
proof (induction f p n k count rule: scanRun.induct)
  case (1 f p n k count)
  have kn: "k < n" using "1.prems" by linarith
  show ?case
  proof (cases "f k = p")
    case True
    show ?thesis
    proof (cases "count + 1 \<ge> 4")
      case True
      with kn \<open>f k = p\<close> show ?thesis by (subst scanRun.simps) simp
    next
      case False
      have "scanRun f p n (k + 1) (count + 1)"
        using "1.IH"(1)[OF kn True False] "1.prems" False by auto
      with kn True False show ?thesis by (subst scanRun.simps) simp
    qed
  next
    case False
    then have "k < s" using "1.prems" by (metis not_le_imp_less)
    then have "scanRun f p n (k + 1) 0"
      using "1.IH"(2)[OF kn False] "1.prems" by auto
    with kn False show ?thesis by (subst scanRun.simps) simp
  qed
qed

lemma scanRun_sound:
  "scanRun f p n k count \<Longrightarrow> 0 \<le> count \<Longrightarrow> (\<forall>j. k - count \<le> j \<and> j < k \<longrightarrow> f j = p) \<Longrightarrow>
   \<exists>s. k - count \<le> s \<and> s + 3 < n \<and> (\<forall>j. s \<le> j \<and> j \<le> s + 3 \<longrightarrow> f j = p)"
proof (induction f p n k count rule: scanRun.induct)
  case (1 f p n k count)
  from "1.prems"(1) have kn: "k < n"
    by (subst (asm) scanRun.simps) (simp split: if_splits)
  show ?case
  proof (cases "f k = p")
    case True
    show ?thesis
    proof (cases "count + 1 \<ge> 4")
      case True
      have "\<forall>j. k - 3 \<le> j \<and> j \<le> (k - 3) + 3 \<longrightarrow> f j = p"
      proof (intro allI impI)
        fix j assume a: "k - 3 \<le> j \<and> j \<le> (k - 3) + 3"
        then consider "j = k" | "k - count \<le> j" "j < k" using True by linarith
        then show "f j = p" using \<open>f k = p\<close> "1.prems"(3) by cases auto
      qed
      moreover have "k - count \<le> k - 3" using True by simp
      moreover have "(k - 3) + 3 < n" using kn by simp
      ultimately show ?thesis by blast
    next
      case False
      from "1.prems"(1) kn True False have rec: "scanRun f p n (k + 1) (count + 1)"
        by (subst (asm) scanRun.simps) simp
      have pre: "\<forall>j. k + 1 - (count + 1) \<le> j \<and> j < k + 1 \<longrightarrow> f j = p"
      proof (intro allI impI)
        fix j assume a: "k + 1 - (count + 1) \<le> j \<and> j < k + 1"
        then consider "j = k" | "k - count \<le> j" "j < k" by linarith
        then show "f j = p" using \<open>f k = p\<close> "1.prems"(3) by cases auto
      qed
      from "1.IH"(1)[OF kn True False rec _ pre] "1.prems"(2)
      obtain s where "k + 1 - (count + 1) \<le> s" "s + 3 < n" "\<forall>j. s \<le> j \<and> j \<le> s + 3 \<longrightarrow> f j = p"
        by auto
      then show ?thesis by (intro exI[of _ s]) auto
    qed
  next
    case False
    from "1.prems"(1) kn False have rec: "scanRun f p n (k + 1) 0"
      by (subst (asm) scanRun.simps) simp
    from "1.IH"(2)[OF kn False rec]
    obtain s where "k + 1 - 0 \<le> s" "s + 3 < n" "\<forall>j. s \<le> j \<and> j \<le> s + 3 \<longrightarrow> f j = p"
      by auto
    then show ?thesis using "1.prems"(2) by (intro exI[of _ s]) auto
  qed
qed

lemma horizontal_scanRun:
  "checkWin_horizontal b lastRow p c count = scanRun (\<lambda>k. cell b lastRow k) p Cols c count"
proof (induction b lastRow p c count rule: checkWin_horizontal.induct)
  case (1 b lastRow p c count)
  show ?case
    by (subst checkWin_horizontal.simps, subst scanRun.simps) (use 1 in auto)
qed

lemma vertical_scanRun:
  "checkWin_vertical b lastCol p r count = scanRun (\<lambda>k. cell b k lastCol) p Rows r count"
proof (induction b lastCol p r count rule: checkWin_vertical.induct)
  case (1 b lastCol p r count)
  show ?case
    by (subst checkWin_vertical.simps, subst scanRun.simps) (use 1 in auto)
qed

lemma diagDown_scanRun:
  "n = min (Rows - r0) (Cols - c0) \<Longrightarrow> f = (\<lambda>k. cell b (r0 + k) (c0 + k)) \<Longrightarrow>
   checkWin_diagDown b p (r0 + k) (c0 + k) count = scanRun f p n k count"
proof (induction f p n k count rule: scanRun.induct)
  case (1 f p n k count)
  have cond: "(r0 + k < Rows \<and> c0 + k < Cols) \<longleftrightarrow> k < n" using "1.prems" by auto
  have fk: "f k = cell b (r0 + k) (c0 + k)" using "1.prems" by simp
  have shift: "r0 + k + 1 = r0 + (k + 1)" "c0 + k + 1 = c0 + (k + 1)" by simp_all
  show ?case
    apply (subst checkWin_diagDown.simps, subst scanRun.simps)
    unfolding cond fk shift
    using "1.IH" "1.prems" fk by auto
qed

lemma diagUp_scanRun:
  "n = min (r0 + 1) (Cols - c0) \<Longrightarrow> f = (\<lambda>k. cell b (r0 - k) (c0 + k)) \<Longrightarrow>
   checkWin_diagUp b p (r0 - k) (c0 + k) count = scanRun f p n k count"
proof (induction f p n k count rule: scanRun.induct)
  case (1 f p n k count)
  have cond: "(r0 - k \<ge> 0 \<and> c0 + k < Cols) \<longleftrightarrow> k < n" using "1.prems" by auto
  have fk: "f k = cell b (r0 - k) (c0 + k)" using "1.prems" by simp
  have shift: "r0 - k - 1 = r0 - (k + 1)" "c0 + k + 1 = c0 + (k + 1)" by simp_all
  show ?case
    apply (subst checkWin_diagUp.simps, subst scanRun.simps)
    unfolding cond fk shift
    using "1.IH" "1.prems" fk by auto
qed

lemma run4_cells:
  "run4 b p r c dr dc \<longleftrightarrow>
   (\<forall>k. 0 \<le> k \<and> k \<le> 3 \<longrightarrow> in_board (r + k * dr) (c + k * dc) \<and> cell b (r + k * dr) (c + k * dc) = p)"
  by (auto simp: run4_def)

lemma horizontal_complete:
  assumes run: "run4 b p r (c - j) 0 1" and j: "0 \<le> j" "j \<le> 3"
  shows "checkWin_horizontal b r p 0 0"
proof -
  have cells: "\<And>k. 0 \<le> k \<Longrightarrow> k \<le> 3 \<Longrightarrow> in_board r (c - j + k) \<and> cell b r (c - j + k) = p"
    using run by (simp add: run4_cells)
  have lo: "0 \<le> c - j" using cells[of 0] by (simp add: in_board_def)
  have hi: "c - j + 3 < Cols" using cells[of 3] by (simp add: in_board_def)
  have all: "\<forall>i. c - j \<le> i \<and> i \<le> c - j + 3 \<longrightarrow> cell b r i = p"
  proof (intro allI impI)
    fix i assume "c - j \<le> i \<and> i \<le> c - j + 3"
    then have "0 \<le> i - (c - j)" "i - (c - j) \<le> 3" by auto
    from cells[OF this] show "cell b r i = p" by simp
  qed
  show ?thesis
    unfolding horizontal_scanRun
    by (rule scanRun_complete[where s = "c - j"]) (use lo hi all in auto)
qed

lemma vertical_complete:
  assumes run: "run4 b p (r - j) c 1 0" and j: "0 \<le> j" "j \<le> 3"
  shows "checkWin_vertical b c p 0 0"
proof -
  have cells: "\<And>k. 0 \<le> k \<Longrightarrow> k \<le> 3 \<Longrightarrow> in_board (r - j + k) c \<and> cell b (r - j + k) c = p"
    using run by (simp add: run4_cells)
  have lo: "0 \<le> r - j" using cells[of 0] by (simp add: in_board_def)
  have hi: "r - j + 3 < Rows" using cells[of 3] by (simp add: in_board_def)
  have all: "\<forall>i. r - j \<le> i \<and> i \<le> r - j + 3 \<longrightarrow> cell b i c = p"
  proof (intro allI impI)
    fix i assume "r - j \<le> i \<and> i \<le> r - j + 3"
    then have "0 \<le> i - (r - j)" "i - (r - j) \<le> 3" by auto
    from cells[OF this] show "cell b i c = p" by simp
  qed
  show ?thesis
    unfolding vertical_scanRun
    by (rule scanRun_complete[where s = "r - j"]) (use lo hi all in auto)
qed

lemma diagDown_complete:
  assumes run: "run4 b p (r - j) (c - j) 1 1" and j: "0 \<le> j" "j \<le> 3"
  shows "checkWin_diagDown b p (r - min r c) (c - min r c) 0"
proof -
  define m where "m = min r c"
  define r0 where "r0 = r - m"
  define c0 where "c0 = c - m"
  define f where "f = (\<lambda>k. cell b (r0 + k) (c0 + k))"
  define n where "n = min (Rows - r0) (Cols - c0)"
  have cells: "\<And>k. 0 \<le> k \<Longrightarrow> k \<le> 3 \<Longrightarrow>
      in_board (r - j + k) (c - j + k) \<and> cell b (r - j + k) (c - j + k) = p"
    using run by (simp add: run4_cells)
  have lo: "0 \<le> m - j" using cells[of 0] by (simp add: in_board_def m_def)
  have hi: "m - j + 3 < n"
    using cells[of 3] by (simp add: in_board_def n_def r0_def c0_def)
  have all: "\<forall>i. m - j \<le> i \<and> i \<le> m - j + 3 \<longrightarrow> f i = p"
  proof (intro allI impI)
    fix i assume "m - j \<le> i \<and> i \<le> m - j + 3"
    then have "0 \<le> i - (m - j)" "i - (m - j) \<le> 3" by auto
    from cells[OF this] show "f i = p" by (simp add: f_def r0_def c0_def algebra_simps)
  qed
  have "scanRun f p n 0 0"
    by (rule scanRun_complete[where s = "m - j"]) (use lo hi all in auto)
  then have "checkWin_diagDown b p (r0 + 0) (c0 + 0) 0"
    using diagDown_scanRun[OF n_def f_def, of p 0 0] by simp
  then show ?thesis by (simp add: r0_def c0_def m_def)
qed

lemma diagUp_complete:
  assumes run: "run4 b p (r + j) (c - j) (- 1) 1" and j: "0 \<le> j" "j \<le> 3"
  shows "checkWin_diagUp b p (r + min (Rows - 1 - r) c) (c - min (Rows - 1 - r) c) 0"
proof -
  define m where "m = min (Rows - 1 - r) c"
  define r0 where "r0 = r + m"
  define c0 where "c0 = c - m"
  define f where "f = (\<lambda>k. cell b (r0 - k) (c0 + k))"
  define n where "n = min (r0 + 1) (Cols - c0)"
  have cells: "\<And>k. 0 \<le> k \<Longrightarrow> k \<le> 3 \<Longrightarrow>
      in_board (r + j - k) (c - j + k) \<and> cell b (r + j - k) (c - j + k) = p"
    using run by (simp add: run4_cells)
  have lo: "0 \<le> m - j" using cells[of 0] by (simp add: in_board_def m_def)
  have hi: "m - j + 3 < n"
    using cells[of 3] by (simp add: in_board_def n_def r0_def c0_def)
  have all: "\<forall>i. m - j \<le> i \<and> i \<le> m - j + 3 \<longrightarrow> f i = p"
  proof (intro allI impI)
    fix i assume "m - j \<le> i \<and> i \<le> m - j + 3"
    then have "0 \<le> i - (m - j)" "i - (m - j) \<le> 3" by auto
    from cells[OF this] show "f i = p" by (simp add: f_def r0_def c0_def algebra_simps)
  qed
  have "scanRun f p n 0 0"
    by (rule scanRun_complete[where s = "m - j"]) (use lo hi all in auto)
  then have "checkWin_diagUp b p (r0 - 0) (c0 + 0) 0"
    using diagUp_scanRun[OF n_def f_def, of p 0 0] by simp
  then show ?thesis by (simp add: r0_def c0_def m_def)
qed

lemma checkWin_complete:
  assumes "run4_through b p r c"
  shows "checkWin b r c p"
proof -
  from assms obtain dr dc j where d: "(dr, dc) \<in> set directions" and j: "0 \<le> j" "j \<le> 3"
    and run: "run4 b p (r - j * dr) (c - j * dc) dr dc"
    by (auto simp: run4_through_def)
  from d consider "dr = 0" "dc = 1" | "dr = 1" "dc = 0" | "dr = 1" "dc = 1" | "dr = - 1" "dc = 1"
    by (auto simp: directions_def)
  then show ?thesis
  proof cases
    case 1
    with run j show ?thesis using horizontal_complete[of b p r c j] by (simp add: checkWin_def)
  next
    case 2
    with run j show ?thesis using vertical_complete[of b p r j c] by (simp add: checkWin_def)
  next
    case 3
    with run j show ?thesis using diagDown_complete[of b p r j c] by (simp add: checkWin_def)
  next
    case 4
    with run j show ?thesis using diagUp_complete[of b p r j c] by (simp add: checkWin_def)
  qed
qed

lemma has_run4I:
  "run4 b p r c dr dc \<Longrightarrow> (dr, dc) \<in> set directions \<Longrightarrow> has_run4 b p"
proof -
  assume run: "run4 b p r c dr dc" and d: "(dr, dc) \<in> set directions"
  from run have "in_board r c" using run4_cells[of b p r c dr dc] by force
  then have "r \<in> {0..<Rows}" "c \<in> {0..<Cols}" by (auto simp: in_board_def)
  with run d show ?thesis unfolding has_run4_def by blast
qed

lemma checkWin_sound:
  assumes inb: "in_board r c" and win: "checkWin b r c p"
  shows "has_run4 b p"
proof -
  from win consider
      (h) "checkWin_horizontal b r p 0 0"
    | (v) "checkWin_vertical b c p 0 0"
    | (dd) "checkWin_diagDown b p (r - min r c) (c - min r c) 0"
    | (du) "checkWin_diagUp b p (r + min (Rows - 1 - r) c) (c - min (Rows - 1 - r) c) 0"
    by (auto simp: checkWin_def)
  then show ?thesis
  proof cases
    case h
    then have "scanRun (\<lambda>k. cell b r k) p Cols 0 0" by (simp add: horizontal_scanRun)
    from scanRun_sound[OF this] obtain s where s: "0 \<le> s" "s + 3 < Cols"
      "\<forall>j. s \<le> j \<and> j \<le> s + 3 \<longrightarrow> cell b r j = p" by auto
    have "run4 b p r s 0 1"
      using s inb by (auto simp: run4_cells in_board_def)
    then show ?thesis by (rule has_run4I) (simp add: directions_def)
  next
    case v
    then have "scanRun (\<lambda>k. cell b k c) p Rows 0 0" by (simp add: vertical_scanRun)
    from scanRun_sound[OF this] obtain s where s: "0 \<le> s" "s + 3 < Rows"
      "\<forall>j. s \<le> j \<and> j \<le> s + 3 \<longrightarrow> cell b j c = p" by auto
    have "run4 b p s c 1 0"
      using s inb by (auto simp: run4_cells in_board_def)
    then show ?thesis by (rule has_run4I) (simp add: directions_def)
  next
    case dd
    define m where "m = min r c"
    define r0 where "r0 = r - m"
    define c0 where "c0 = c - m"
    define f where "f = (\<lambda>k. cell b (r0 + k) (c0 + k))"
    define n where "n = min (Rows - r0) (Cols - c0)"
    have "checkWin_diagDown b p (r0 + 0) (c0 + 0) 0" using dd by (simp add: r0_def c0_def m_def)
    then have "scanRun f p n 0 0" using diagDown_scanRun[OF n_def f_def, of p 0 0] by simp
    from scanRun_sound[OF this] obtain s where s: "0 \<le> s" "s + 3 < n"
      "\<forall>j. s \<le> j \<and> j \<le> s + 3 \<longrightarrow> f j = p" by auto
    have nonneg: "0 \<le> r0" "0 \<le> c0" using inb by (auto simp: r0_def c0_def m_def in_board_def)
    have "run4 b p (r0 + s) (c0 + s) 1 1"
      unfolding run4_cells
    proof (intro allI impI)
      fix k :: int assume k: "0 \<le> k \<and> k \<le> 3"
      then have "f (s + k) = p" using s by auto
      moreover have "in_board (r0 + s + k * 1) (c0 + s + k * 1)"
        using k s nonneg by (auto simp: in_board_def n_def)
      ultimately show "in_board (r0 + s + k * 1) (c0 + s + k * 1) \<and>
          cell b (r0 + s + k * 1) (c0 + s + k * 1) = p"
        by (simp add: f_def algebra_simps)
    qed
    then show ?thesis by (rule has_run4I) (simp add: directions_def)
  next
    case du
    define m where "m = min (Rows - 1 - r) c"
    define r0 where "r0 = r + m"
    define c0 where "c0 = c - m"
    define f where "f = (\<lambda>k. cell b (r0 - k) (c0 + k))"
    define n where "n = min (r0 + 1) (Cols - c0)"
    have "checkWin_diagUp b p (r0 - 0) (c0 + 0) 0" using du by (simp add: r0_def c0_def m_def)
    then have "scanRun f p n 0 0" using diagUp_scanRun[OF n_def f_def, of p 0 0] by simp
    from scanRun_sound[OF this] obtain s where s: "0 \<le> s" "s + 3 < n"
      "\<forall>j. s \<le> j \<and> j \<le> s + 3 \<longrightarrow> f j = p" by auto
    have bounds: "r0 < Rows" "0 \<le> c0" using inb by (auto simp: r0_def c0_def m_def in_board_def)
    have "run4 b p (r0 - s) (c0 + s) (- 1) 1"
      unfolding run4_cells
    proof (intro allI impI)
      fix k :: int assume k: "0 \<le> k \<and> k \<le> 3"
      then have "f (s + k) = p" using s by auto
      moreover have "in_board (r0 - s + k * (- 1)) (c0 + s + k * 1)"
        using k s bounds by (auto simp: in_board_def n_def)
      ultimately show "in_board (r0 - s + k * (- 1)) (c0 + s + k * 1) \<and>
          cell b (r0 - s + k * (- 1)) (c0 + s + k * 1) = p"
        by (simp add: f_def algebra_simps)
    qed
    then show ?thesis by (rule has_run4I) (simp add: directions_def)
  qed
qed

section \<open>Sending, broadcasting and ending a match\<close>

lemma updPlayer_fields [simp]:
  "players (updPlayer p f w) = players w"
  "games (updPlayer p f w) = games w"
  "waitingPlayer (updPlayer p f w) = waitingPlayer w"
  "PrivateRooms (updPlayer p f w) = PrivateRooms w"
  "gameHeap (updPlayer p f w) = gameHeap w"
  "nextGame (updPlayer p f w) = nextGame w"
  "effects (updPlayer p f w) = effects w"
  "playerHeap (updPlayer p f w) = (playerHeap w)(p := f (playerHeap w p))"
  by (simp_all add: updPlayer_def)

lemma updGame_fields [simp]:
  "players (updGame gr f w) = players w"
  "games (updGame gr f w) = games w"
  "waitingPlayer (updGame gr f w) = waitingPlayer w"
  "PrivateRooms (updGame gr f w) = PrivateRooms w"
  "playerHeap (updGame gr f w) = playerHeap w"
  "nextGame (updGame gr f w) = nextGame w"
  "effects (updGame gr f w) = effects w"
  "gameHeap (updGame gr f w) = (gameHeap w)(gr := f (gameHeap w gr))"
  by (simp_all add: updGame_def)

lemma emit_fields [simp]:
  "players (emit es w) = players w"
  "games (emit es w) = games w"
  "waitingPlayer (emit es w) = waitingPlayer w"
  "PrivateRooms (emit es w) = PrivateRooms w"
  "playerHeap (emit es w) = playerHeap w"
  "gameHeap (emit es w) = gameHeap w"
  "nextGame (emit es w) = nextGame w"
  "effects (emit es w) = effects w @ es"
  by (simp_all add: emit_def)

lemma enqueue_fields [simp]:
  "players (enqueue p fr w) = players w"
  "games (enqueue p fr w) = games w"
  "waitingPlayer (enqueue p fr w) = waitingPlayer w"
  "PrivateRooms (enqueue p fr w) = PrivateRooms w"
  "gameHeap (enqueue p fr w) = gameHeap w"
  "nextGame (enqueue p fr w) = nextGame w"
  "effects (enqueue p fr w) = effects w"
  "playerHeap (enqueue p fr w) = (playerHeap w)(p := (playerHeap w p)\<lparr>Send := Send (playerHeap w p) @ [fr]\<rparr>)"
  by (simp_all add: enqueue_def)

lemma SendMessage_Some:
  "SendMessage p t d w = Some w' \<longleftrightarrow> \<not> Send_closed (playerHeap w p) \<and> w' = enqueue p (Frame t d) w"
  by (auto simp: SendMessage_def)

lemma SendError_Some:
  "SendError p m w = Some w' \<longleftrightarrow>
   \<not> Send_closed (playerHeap w p) \<and> w' = enqueue p (Frame ''error'' (MessageData m)) w"
  by (simp add: SendError_def SendMessage_Some)

lemma BroadcastState_frame:
  "BroadcastState gr w = Some w' \<Longrightarrow>
   players w' = players w \<and> games w' = games w \<and> waitingPlayer w' = waitingPlayer w \<and>
   PrivateRooms w' = PrivateRooms w \<and> gameHeap w' = gameHeap w \<and> nextGame w' = nextGame w \<and>
   effects w' = effects w"
  by (auto simp: BroadcastState_def Let_def SendMessage_Some bind_eq_Some_conv
           split: option.splits if_splits)

lemma BroadcastState_players:
  "BroadcastState gr w = Some w' \<Longrightarrow>
   Username (playerHeap w' p) = Username (playerHeap w p) \<and>
   Game (playerHeap w' p) = Game (playerHeap w p) \<and>
   Conn (playerHeap w' p) = Conn (playerHeap w p) \<and>
   Send_closed (playerHeap w' p) = Send_closed (playerHeap w p)"
  by (auto simp: BroadcastState_def Let_def SendMessage_Some bind_eq_Some_conv
           split: option.splits if_splits)

lemma BroadcastState_returns:
  "connected w gr \<Longrightarrow> \<exists>w'. BroadcastState gr w = Some w'"
  by (auto simp: connected_def recipients_def BroadcastState_def Let_def SendMessage_def
           split: option.splits)

lemma endGame_fields [simp]:
  "players (endGame gr n w) = players w"
  "waitingPlayer (endGame gr n w) = waitingPlayer w"
  "PrivateRooms (endGame gr n w) = PrivateRooms w"
  "nextGame (endGame gr n w) = nextGame w"
  "games (endGame gr n w) = (games w)(ID (gameHeap w gr) := None)"
  "gameHeap (endGame gr n w) = (gameHeap w)(gr := (gameHeap w gr)\<lparr>Status := ''finished'', Winner := n\<rparr>)"
  by (simp_all add: endGame_def Let_def split: option.splits)

lemma endGame_players:
  "Username (playerHeap (endGame gr n w) p) = Username (playerHeap w p)"
  "Conn (playerHeap (endGame gr n w) p) = Conn (playerHeap w p)"
  "Send (playerHeap (endGame gr n w) p) = Send (playerHeap w p)"
  "Send_closed (playerHeap (endGame gr n w) p) = Send_closed (playerHeap w p)"
  by (simp_all add: endGame_def Let_def split: option.splits)

lemma endGame_effects:
  "effects (endGame gr n w) =
     effects w @ [SaveGame gr] @ endGame_stats w (gameHeap w gr) n @
       [ProduceEvent ''game_ended''
          [(''gameId'', S (ID (gameHeap w gr))),
           (''winner'', S (endGame_winnerUsername w (gameHeap w gr) n)),
           (''isBot'', B (IsBot (gameHeap w gr)))]]"
  by (simp add: endGame_def Let_def endGame_stats_def endGame_winnerUsername_def getPlayerName_def
           split: option.splits)

section \<open>The outcomes of HandleMove\<close>

lemma column_full_cells:
  "column_full b col \<longleftrightarrow> (\<forall>r. 0 \<le> r \<and> r < Rows \<longrightarrow> cell b r col \<noteq> Empty_mark)"
  by (auto simp: column_full_def)

lemma makeMove_column_full:
  "0 \<le> col \<Longrightarrow> col < Cols \<Longrightarrow> column_full b col \<Longrightarrow> makeMove b col p = Inl ''Column is full''"
  by (simp add: makeMove_full column_full_cells)

lemma HandleMove_finished:
  "Status (gameHeap w gr) \<noteq> ''playing'' \<Longrightarrow> HandleMove gr player col w = Some w"
  by (simp add: HandleMove_def)

lemma HandleMove_not_turn:
  assumes "Status (gameHeap w gr) = ''playing''"
    and "HandleMove_playerNum (gameHeap w gr) player = Inr n"
    and "n \<noteq> CurrentPlayer (gameHeap w gr)"
  shows "HandleMove gr player col w = HandleMove_reject player ''It's not your turn.'' w"
  using assms by (simp add: HandleMove_def)

lemma HandleMove_makeMove_error:
  assumes "Status (gameHeap w gr) = ''playing''"
    and "HandleMove_playerNum (gameHeap w gr) player = Inr n"
    and "n = CurrentPlayer (gameHeap w gr)"
    and "makeMove (Board (gameHeap w gr)) col n = Inl err"
  shows "HandleMove gr player col w = HandleMove_reject player err w"
  using assms by (simp add: HandleMove_def)


lemma frozen_refl [simp]: "frozen gr w w"
  by (simp add: frozen_def)

lemma frozen_trans: "frozen gr w w1 \<Longrightarrow> frozen gr w1 w2 \<Longrightarrow> frozen gr w w2"
  by (auto simp: frozen_def)

lemma frozen_enqueue [simp]: "frozen gr w (enqueue p fr w)"
  by (simp add: frozen_def)

lemma frozen_emit: "SaveGame gr \<notin> set es \<Longrightarrow> frozen gr w (emit es w)"
  by (simp add: frozen_def)

lemma frozen_updPlayer [simp]: "frozen gr w (updPlayer p f w)"
  by (simp add: frozen_def)

lemma frozen_SendMessage: "SendMessage p t d w = Some w' \<Longrightarrow> frozen gr w w'"
  by (auto simp: SendMessage_Some)

lemma frozen_SendError: "SendError p m w = Some w' \<Longrightarrow> frozen gr w w'"
  by (auto simp: SendError_Some)

lemma frozen_BroadcastState: "BroadcastState x w = Some w' \<Longrightarrow> frozen gr w w'"
  by (drule BroadcastState_frame) (simp add: frozen_def)

lemma count_endGame_stats [simp]: "count_list (endGame_stats w g n) (SaveGame gr) = 0"
  by (simp add: endGame_stats_def Let_def split: option.splits)

lemma frozen_endGame: "x \<noteq> gr \<Longrightarrow> frozen gr w (endGame x n w)"
  by (simp add: frozen_def endGame_effects)

lemma HandleMove_accept:
  assumes "Status (gameHeap w gr) = ''playing''"
    and "HandleMove_playerNum (gameHeap w gr) player = Inr n"
    and "n = CurrentPlayer (gameHeap w gr)"
    and "makeMove (Board (gameHeap w gr)) col n = Inr (row, b')"
  shows "HandleMove gr player col w =
     (let g = gameHeap w gr;
          w1 = updGame gr (\<lambda>g. g\<lparr>Board := b'\<rparr>) w;
          w2 = emit [ProduceEvent ''move_made''
                       [(''gameId'', S (ID g)), (''player'', S (getPlayerName w1 g player)),
                        (''column'', I col), (''row'', I row)]] w1
      in if checkWin b' row col n then BroadcastState gr (endGame gr n w2)
         else if checkDraw b' then BroadcastState gr (endGame gr Empty_mark w2)
         else do {
           w3 \<leftarrow> BroadcastState gr (updGame gr (\<lambda>g. g\<lparr>CurrentPlayer := 3 - CurrentPlayer g\<rparr>) w2);
           Some (if IsBot g \<and> CurrentPlayer (gameHeap w3 gr) = Player2_mark
                 then emit [Bot_MakeMove_go gr] w3 else w3)
         })"
  using assms by (simp add: HandleMove_def Let_def)

lemma HandleMove_cases:
  assumes "HandleMove gr player col w = Some w'"
  obtains (unchanged) "w' = w"
    | (rejected) p msg where "w' = enqueue p (Frame ''error'' (MessageData msg)) w"
    | (accepted) n row b' where
        "Status (gameHeap w gr) = ''playing''"
        "HandleMove_playerNum (gameHeap w gr) player = Inr n"
        "n = CurrentPlayer (gameHeap w gr)"
        "makeMove (Board (gameHeap w gr)) col n = Inr (row, b')"
proof (cases "Status (gameHeap w gr) = ''playing''")
  case False
  with assms have "w' = w" by (simp add: HandleMove_def)
  then show ?thesis by (rule unchanged)
next
  case playing: True
  show ?thesis
  proof (cases "HandleMove_playerNum (gameHeap w gr) player")
    case (Inl logged)
    with assms playing have "w' = w" by (simp add: HandleMove_def split: if_splits)
    then show ?thesis by (rule unchanged)
  next
    case (Inr n)
    show ?thesis
    proof (cases "n = CurrentPlayer (gameHeap w gr)")
      case False
      with assms playing Inr
      have "HandleMove_reject player ''It's not your turn.'' w = Some w'"
        by (simp add: HandleMove_def)
      then show ?thesis
        by (cases player) (auto simp: HandleMove_reject_def SendError_Some intro: unchanged rejected)
    next
      case turn: True
      show ?thesis
      proof (cases "makeMove (Board (gameHeap w gr)) col n")
        case (Inl err)
        with assms playing Inr turn have "HandleMove_reject player err w = Some w'"
          by (simp add: HandleMove_def)
        then show ?thesis
          by (cases player) (auto simp: HandleMove_reject_def SendError_Some intro: unchanged rejected)
      next
        case (Inr res)
        obtain row b' where "res = (row, b')" by (cases res)
        with Inr playing turn \<open>HandleMove_playerNum (gameHeap w gr) player = Inr n\<close>
        show ?thesis by (intro accepted) auto
      qed
    qed
  qed
qed

lemma HandleMove_playerNum_marks:
  "HandleMove_playerNum g player = Inr n \<Longrightarrow> n = Player1_mark \<or> n = Player2_mark"
  by (auto simp: HandleMove_playerNum_def split: if_splits)

lemma frozen_HandleMove:
  assumes mv: "HandleMove x player col w = Some w'"
    and fin: "Status (gameHeap w gr) = ''finished''"
  shows "frozen gr w w'"
  using mv
proof (cases rule: HandleMove_cases)
  case unchanged
  then show ?thesis by simp
next
  case (rejected p msg)
  then show ?thesis by simp
next
  case (accepted n row b')
  with fin have ne: "x \<noteq> gr" by auto
  define w2 where "w2 = emit [ProduceEvent ''move_made''
                       [(''gameId'', S (ID (gameHeap w x))),
                        (''player'', S (getPlayerName (updGame x (\<lambda>g. g\<lparr>Board := b'\<rparr>) w) (gameHeap w x) player)),
                        (''column'', I col), (''row'', I row)]] (updGame x (\<lambda>g. g\<lparr>Board := b'\<rparr>) w)"
  have f2: "frozen gr w w2" using ne by (simp add: w2_def frozen_def)
  have f3: "frozen gr w (updGame x (\<lambda>g. g\<lparr>CurrentPlayer := 3 - CurrentPlayer g\<rparr>) w2)"
    using ne f2 by (simp add: frozen_def)
  from mv have eq:
     "(if checkWin b' row col n then BroadcastState x (endGame x n w2)
       else if checkDraw b' then BroadcastState x (endGame x Empty_mark w2)
       else do {
           w3 \<leftarrow> BroadcastState x (updGame x (\<lambda>g. g\<lparr>CurrentPlayer := 3 - CurrentPlayer g\<rparr>) w2);
           Some (if IsBot (gameHeap w x) \<and> CurrentPlayer (gameHeap w3 x) = Player2_mark
                 then emit [Bot_MakeMove_go x] w3 else w3)
         }) = Some w'"
    unfolding HandleMove_accept[OF accepted] Let_def w2_def .
  consider (win) "checkWin b' row col n" | (draw) "\<not> checkWin b' row col n" "checkDraw b'"
    | (continue) "\<not> checkWin b' row col n" "\<not> checkDraw b'" by blast
  then show ?thesis
  proof cases
    case win
    with eq have "BroadcastState x (endGame x n w2) = Some w'" by simp
    from frozen_BroadcastState[OF this] frozen_endGame[OF ne] f2 show ?thesis
      by (blast intro: frozen_trans)
  next
    case draw
    with eq have "BroadcastState x (endGame x Empty_mark w2) = Some w'" by simp
    from frozen_BroadcastState[OF this] frozen_endGame[OF ne] f2 show ?thesis
      by (blast intro: frozen_trans)
  next
    case continue
    with eq obtain w3 where
      b: "BroadcastState x (updGame x (\<lambda>g. g\<lparr>CurrentPlayer := 3 - CurrentPlayer g\<rparr>) w2) = Some w3"
      and w': "w' = (if IsBot (gameHeap w x) \<and> CurrentPlayer (gameHeap w3 x) = Player2_mark
                 then emit [Bot_MakeMove_go x] w3 else w3)"
      by (auto simp: bind_eq_Some_conv)
    have "frozen gr w3 w'" unfolding w' by (simp add: frozen_def)
    with frozen_BroadcastState[OF b] f3 show ?thesis by (blast intro: frozen_trans)
  qed
qed

section \<open>A finished match stays as it is\<close>

lemma frozen_HandleDisconnect: "frozen gr w (HandleDisconnect x p w)"
  by (simp add: HandleDisconnect_def frozen_emit)

lemma frozen_HandleDisconnect_expired:
  assumes "HandleDisconnect_expired x p w = Some w'" and "Status (gameHeap w gr) = ''finished''"
  shows "frozen gr w w'"
proof (cases "Status (gameHeap w x) = ''playing''")
  case False
  with assms show ?thesis by (simp add: HandleDisconnect_expired_def)
next
  case True
  with assms have ne: "x \<noteq> gr" by auto
  from assms True obtain n where "BroadcastState x (endGame x n w) = Some w'"
    by (simp add: HandleDisconnect_expired_def Let_def)
  from frozen_BroadcastState[OF this] frozen_endGame[OF ne] show ?thesis
    by (blast intro: frozen_trans)
qed

lemma frozen_HandleReconnect:
  "HandleReconnect x p c w = Some w' \<Longrightarrow> frozen gr w w'"
  by (auto simp: HandleReconnect_def Let_def SendError_Some SendMessage_Some frozen_def
           split: if_splits)

lemma frozen_startGame:
  "startGame p1 p2 gameID w = Some w' \<Longrightarrow> gr < nextGame w \<Longrightarrow> frozen gr w w'"
  by (auto simp: startGame_def Let_def bind_eq_Some_conv frozen_def
           dest!: BroadcastState_frame)

lemma frozen_startBotGame:
  "startBotGame p gameID w = Some w' \<Longrightarrow> gr < nextGame w \<Longrightarrow> frozen gr w w'"
  by (auto simp: startBotGame_def Let_def bind_eq_Some_conv frozen_def
           dest!: BroadcastState_frame split: if_splits)

lemma frozen_handleJoin:
  "handleJoin p u gameID w = Some w' \<Longrightarrow> gr < nextGame w \<Longrightarrow> frozen gr w w'"
  by (auto simp: handleJoin_def Let_def bind_eq_Some_conv SendError_Some SendMessage_Some
                 frozen_def
           dest!: frozen_startGame[where gr = gr] split: if_splits option.splits)

lemma frozen_handleMove:
  "handleMove p col w = Some w' \<Longrightarrow> Status (gameHeap w gr) = ''finished'' \<Longrightarrow> frozen gr w w'"
  by (auto simp: handleMove_def SendError_Some dest: frozen_HandleMove split: option.splits)

lemma frozen_handleReconnect:
  "handleReconnect p u w = Some w' \<Longrightarrow> frozen gr w w'"
  by (auto simp: handleReconnect_def SendError_Some frozen_def
           dest!: frozen_HandleReconnect[where gr = gr] split: option.splits)

lemma frozen_handleReconnect_discard:
  "handleReconnect_discard p w = Some w' \<Longrightarrow> frozen gr w w'"
  by (auto simp: handleReconnect_discard_def frozen_def split: if_splits)

lemma frozen_UnregisterPlayer:
  "UnregisterPlayer p order w = Some w' \<Longrightarrow> frozen gr w w'"
  by (auto simp: UnregisterPlayer_def Let_def HandleDisconnect_def frozen_def
           split: if_splits option.splits)

lemma frozen_handleCreatePrivateRoom:
  "handleCreatePrivateRoom p u draws w = Some w' \<Longrightarrow> frozen gr w w'"
  by (auto simp: handleCreatePrivateRoom_def Let_def bind_eq_Some_conv SendError_Some
                 SendMessage_Some frozen_def
           split: if_splits option.splits)

lemma frozen_handleCreatePrivateRoom_expired:
  "handleCreatePrivateRoom_expired c p w = Some w' \<Longrightarrow> frozen gr w w'"
  by (auto simp: handleCreatePrivateRoom_expired_def SendMessage_Some frozen_def
           split: if_splits)

lemma frozen_handleJoinPrivateRoom:
  "handleJoinPrivateRoom p u c gameID w = Some w' \<Longrightarrow> gr < nextGame w \<Longrightarrow> frozen gr w w'"
  by (auto simp: handleJoinPrivateRoom_def Let_def SendError_Some frozen_def
           dest!: frozen_startGame[where gr = gr] split: if_splits option.splits)

lemma frozen_HandleMessage:
  "HandleMessage p rawMsg gameID draws w = Some w' \<Longrightarrow>
   Status (gameHeap w gr) = ''finished'' \<Longrightarrow> gr < nextGame w \<Longrightarrow> frozen gr w w'"
  unfolding HandleMessage_def
  by (auto split: option.splits if_splits
           dest: frozen_SendError frozen_handleJoin frozen_handleMove frozen_handleReconnect
                 frozen_handleCreatePrivateRoom frozen_handleJoinPrivateRoom)

lemma frozen_step:
  assumes "step e w = Some w'" and "Status (gameHeap w gr) = ''finished''" and "gr < nextGame w"
  shows "frozen gr w w'"
proof (cases e)
  case (Connect p)
  with assms show ?thesis by (auto simp: AddPlayer_def dest: frozen_SendMessage)
next
  case (Receive p rawMsg gameID draws)
  with assms show ?thesis by (auto dest: frozen_HandleMessage)
next
  case (Disconnect p order)
  with assms show ?thesis by (auto dest: frozen_UnregisterPlayer)
next
  case (Fire t gameID)
  with assms show ?thesis
    by (cases t)
       (auto dest: frozen_startBotGame frozen_handleCreatePrivateRoom_expired
                   frozen_HandleDisconnect_expired)
next
  case (BotMove x col)
  with assms show ?thesis by (auto simp: Bot_MakeMove_def dest: frozen_HandleMove)
next
  case (Discard p)
  with assms show ?thesis by (auto dest: frozen_handleReconnect_discard)
qed

lemma frozen_run:
  "run es w = Some w' \<Longrightarrow> Status (gameHeap w gr) = ''finished'' \<Longrightarrow> gr < nextGame w \<Longrightarrow>
   frozen gr w w'"
proof (induction es arbitrary: w)
  case Nil
  then show ?case by simp
next
  case (Cons e es)
  from Cons.prems(1) obtain w1 where s: "step e w = Some w1" and r: "run es w1 = Some w'"
    by (auto split: if_splits option.splits)
  from frozen_step[OF s Cons.prems(2,3)] have f: "frozen gr w w1" .
  then have "Status (gameHeap w1 gr) = ''finished''" "gr < nextGame w1"
    using Cons.prems(2,3) by (auto simp: frozen_def)
  from Cons.IH[OF r this] f show ?case by (blast intro: frozen_trans)
qed

section \<open>Evaluating the bounded quantifiers on a given board\<close>

lemma ball_int_unroll:
  "(\<forall>x\<in>{a..b::int}. P x) = (if a \<le> b then P a \<and> (\<forall>x\<in>{a + 1..b}. P x) else True)"
proof (cases "a \<le> b")
  case True
  then have "{a..b} = insert a {a + 1..b}" by auto
  with True show ?thesis by simp
qed simp

lemma bex_int_unroll:
  "(\<exists>x\<in>{a..b::int}. P x) = (if a \<le> b then P a \<or> (\<exists>x\<in>{a + 1..b}. P x) else False)"
proof (cases "a \<le> b")
  case True
  then have "{a..b} = insert a {a + 1..b}" by auto
  with True show ?thesis by simp
qed simp

lemma int_lessThan_closed: "{a..<b::int} = {a..b - 1}"
  by auto

section \<open>Moves that are refused, that win, that fill the board\<close>

lemma connected_cong:
  "Player1 (gameHeap w' gr) = Player1 (gameHeap w gr) \<Longrightarrow>
   Player2 (gameHeap w' gr) = Player2 (gameHeap w gr) \<Longrightarrow>
   IsBot (gameHeap w' gr) = IsBot (gameHeap w gr) \<Longrightarrow>
   (\<And>p. Send_closed (playerHeap w' p) = Send_closed (playerHeap w p)) \<Longrightarrow>
   connected w' gr = connected w gr"
  by (simp add: connected_def recipients_def Let_def)

lemma finish_step:
  assumes playing: "Status (gameHeap w gr) = ''playing''"
    and seat: "HandleMove_playerNum (gameHeap w gr) player = Inr n"
    and turn: "n = CurrentPlayer (gameHeap w gr)"
    and move: "makeMove (Board (gameHeap w gr)) col n = Inr (row, b')"
    and outcome: "checkWin b' row col n \<and> winner = n \<or>
                  \<not> checkWin b' row col n \<and> checkDraw b' \<and> winner = Empty_mark"
  shows "HandleMove gr player col w =
           BroadcastState gr (endGame gr winner (placed gr player col row b' w))"
    and "gameHeap (endGame gr winner (placed gr player col row b' w)) =
           (gameHeap w)(gr := (gameHeap w gr)\<lparr>Board := b', Status := ''finished'', Winner := winner\<rparr>)"
    and "count_list (effects (endGame gr winner (placed gr player col row b' w))) (SaveGame gr) =
           count_list (effects w) (SaveGame gr) + 1"
    and "nextGame (endGame gr winner (placed gr player col row b' w)) = nextGame w"
    and "connected (endGame gr winner (placed gr player col row b' w)) gr = connected w gr"
proof -
  show "HandleMove gr player col w =
           BroadcastState gr (endGame gr winner (placed gr player col row b' w))"
    using outcome unfolding HandleMove_accept[OF playing seat turn move] Let_def placed_def
    by auto
  show "gameHeap (endGame gr winner (placed gr player col row b' w)) =
           (gameHeap w)(gr := (gameHeap w gr)\<lparr>Board := b', Status := ''finished'', Winner := winner\<rparr>)"
    by (simp add: placed_def Let_def)
  show "count_list (effects (endGame gr winner (placed gr player col row b' w))) (SaveGame gr) =
           count_list (effects w) (SaveGame gr) + 1"
    by (simp add: placed_def Let_def endGame_effects)
  show "nextGame (endGame gr winner (placed gr player col row b' w)) = nextGame w"
    by (simp add: placed_def Let_def)
  show "connected (endGame gr winner (placed gr player col row b' w)) gr = connected w gr"
    by (rule connected_cong) (simp_all add: endGame_players placed_def Let_def)
qed

text \<open>
  C3. In a match in progress, a move by a participant whose mark is not the current turn,
  or on a column whose six cells are occupied, is answered with an error frame on that
  participant's channel (\<^verbatim>\<open>It's not your turn.\<close>, or \<^verbatim>\<open>Column is full\<close> when it is the
  mover's turn), and that frame is the only change of the state: the board, the current
  turn and the status of the match are as before. The mover is a handle whose channel is
  open, seated at mark \<open>n\<close> by the comparisons of \<^verbatim>\<open>HandleMove\<close>.
\<close>

theorem rejected_move_changes_nothing:
  assumes playing: "Status (gameHeap w gr) = ''playing''"
    and seat: "HandleMove_playerNum (gameHeap w gr) (Some p) = Inr n"
    and channel: "\<not> Send_closed (playerHeap w p)"
    and bad: "n \<noteq> CurrentPlayer (gameHeap w gr) \<or>
              (0 \<le> col \<and> col < Cols \<and> column_full (Board (gameHeap w gr)) col)"
  shows "\<exists>w'. HandleMove gr (Some p) col w = Some w' \<and>
           w' = enqueue p (Frame ''error'' (MessageData
                   (if n \<noteq> CurrentPlayer (gameHeap w gr) then ''It's not your turn.''
                    else ''Column is full''))) w \<and>
           gameHeap w' = gameHeap w \<and>
           Board (gameHeap w' gr) = Board (gameHeap w gr) \<and>
           CurrentPlayer (gameHeap w' gr) = CurrentPlayer (gameHeap w gr) \<and>
           Status (gameHeap w' gr) = Status (gameHeap w gr)"
proof (cases "n \<noteq> CurrentPlayer (gameHeap w gr)")
  case True
  from HandleMove_not_turn[OF playing seat True] channel True
  show ?thesis by (simp add: HandleMove_reject_def SendError_def SendMessage_def)
next
  case False
  with bad have "makeMove (Board (gameHeap w gr)) col n = Inl ''Column is full''"
    by (simp add: makeMove_column_full)
  from HandleMove_makeMove_error[OF playing seat _ this] False channel
  show ?thesis by (simp add: HandleMove_reject_def SendError_def SendMessage_def)
qed

theorem rejected_move_changes_nothing_witness:
  "Status (gameHeap w_colfull 0) = ''playing'' \<and>
   HandleMove_playerNum (gameHeap w_colfull 0) (Some 0) = Inr 1 \<and>
   HandleMove_playerNum (gameHeap w_colfull 0) (Some 1) = Inr 2 \<and>
   \<not> Send_closed (playerHeap w_colfull 0) \<and> \<not> Send_closed (playerHeap w_colfull 1) \<and>
   CurrentPlayer (gameHeap w_colfull 0) = 1 \<and>
   (0 \<le> (3::int) \<and> 3 < Cols \<and> column_full (Board (gameHeap w_colfull 0)) 3) \<and>
   HandleMove 0 (Some 0) 3 w_colfull =
     Some (enqueue 0 (Frame ''error'' (MessageData ''Column is full'')) w_colfull) \<and>
   HandleMove 0 (Some 1) 2 w_colfull =
     Some (enqueue 1 (Frame ''error'' (MessageData ''It's not your turn.'')) w_colfull)"
proof -
  have h1: "Status (gameHeap w_colfull 0) = ''playing''" by code_simp
  have h2: "HandleMove_playerNum (gameHeap w_colfull 0) (Some 0) = Inr 1" by code_simp
  have h3: "\<not> Send_closed (playerHeap w_colfull 0)" by code_simp
  have h4: "0 \<le> (3::int) \<and> 3 < Cols \<and> column_full (Board (gameHeap w_colfull 0)) 3"
    by code_simp
  have h5: "CurrentPlayer (gameHeap w_colfull 0) = 1" by code_simp
  have h6: "HandleMove_playerNum (gameHeap w_colfull 0) (Some 1) = Inr 2" by code_simp
  have h7: "\<not> Send_closed (playerHeap w_colfull 1)" by code_simp
  have h8: "2 \<noteq> CurrentPlayer (gameHeap w_colfull 0)" using h5 by simp
  from rejected_move_changes_nothing[OF h1 h2 h3 disjI2[OF h4]] h5
  have a: "HandleMove 0 (Some 0) 3 w_colfull =
     Some (enqueue 0 (Frame ''error'' (MessageData ''Column is full'')) w_colfull)" by simp
  from rejected_move_changes_nothing[OF h1 h6 h7 disjI1[OF h8], of 2] h5
  have b: "HandleMove 0 (Some 1) 2 w_colfull =
     Some (enqueue 1 (Frame ''error'' (MessageData ''It's not your turn.'')) w_colfull)" by simp
  from h1 h2 h3 h4 h5 h6 h7 a b show ?thesis by blast
qed

text \<open>
  C2. In every match in progress, a move by the side whose turn it is that \<^verbatim>\<open>makeMove\<close>
  accepts at \<open>(row, col)\<close>, and that completes a run of four of the mover's mark through
  that cell along a row, a column or a diagonal, makes \<^verbatim>\<open>HandleMove\<close> apply \<^verbatim>\<open>endGame\<close> with
  the mover: in the state that results the match is finished with the mover as winner
  and \<^verbatim>\<open>endGame\<close> has been applied to it once more than before. What \<^verbatim>\<open>HandleMove\<close> still
  does is to broadcast that state. It returns whenever the channels of the recipients are
  open, and whenever it returns the match is finished with the mover as winner; from then
  on, whatever events follow, an allocated match stays as it is and \<^verbatim>\<open>endGame\<close> is not
  applied to it again. (On a closed channel the broadcast panics, after the transition.)
  At no earlier state of a run that leads here was the match finished.
\<close>

theorem winning_move_finishes_match_once:
  assumes playing: "Status (gameHeap w gr) = ''playing''"
    and seat: "HandleMove_playerNum (gameHeap w gr) player = Inr n"
    and turn: "n = CurrentPlayer (gameHeap w gr)"
    and move: "makeMove (Board (gameHeap w gr)) col n = Inr (row, b')"
    and won: "run4_through b' n row col"
  shows "HandleMove gr player col w =
           BroadcastState gr (endGame gr n (placed gr player col row b' w)) \<and>
         Status (gameHeap (endGame gr n (placed gr player col row b' w)) gr) = ''finished'' \<and>
         Winner (gameHeap (endGame gr n (placed gr player col row b' w)) gr) = n \<and>
         Board (gameHeap (endGame gr n (placed gr player col row b' w)) gr) = b' \<and>
         count_list (effects (endGame gr n (placed gr player col row b' w))) (SaveGame gr) =
           count_list (effects w) (SaveGame gr) + 1 \<and>
         (connected w gr \<longrightarrow> (\<exists>w'. HandleMove gr player col w = Some w')) \<and>
         (\<forall>w'. HandleMove gr player col w = Some w' \<longrightarrow>
            Status (gameHeap w' gr) = ''finished'' \<and> Winner (gameHeap w' gr) = n \<and>
            Board (gameHeap w' gr) = b' \<and>
            count_list (effects w') (SaveGame gr) = count_list (effects w) (SaveGame gr) + 1 \<and>
            (gr < nextGame w \<longrightarrow>
               (\<forall>es w''. run es w' = Some w'' \<longrightarrow>
                  gameHeap w'' gr = gameHeap w' gr \<and>
                  count_list (effects w'') (SaveGame gr) =
                    count_list (effects w') (SaveGame gr)))) \<and>
         (\<forall>es v. run es v = Some w \<and> gr < nextGame v \<longrightarrow>
            Status (gameHeap v gr) \<noteq> ''finished'')"
proof -
  let ?w3 = "endGame gr n (placed gr player col row b' w)"
  have before: "\<forall>es v. run es v = Some w \<and> gr < nextGame v \<longrightarrow>
              Status (gameHeap v gr) \<noteq> ''finished''"
  proof (intro allI impI notI)
    fix es v assume a: "run es v = Some w \<and> gr < nextGame v"
      and f: "Status (gameHeap v gr) = ''finished''"
    from a have r: "run es v = Some w" and al: "gr < nextGame v" by simp_all
    from frozen_run[OF r f al] have "gameHeap w gr = gameHeap v gr" by (simp add: frozen_def)
    with f playing show False by simp
  qed
  have "checkWin b' row col n" using won by (rule checkWin_complete)
  then have out: "checkWin b' row col n \<and> n = n \<or>
             \<not> checkWin b' row col n \<and> checkDraw b' \<and> n = Empty_mark" by simp
  note fs = finish_step[OF playing seat turn move out]
  have st: "Status (gameHeap ?w3 gr) = ''finished''" "Winner (gameHeap ?w3 gr) = n"
    "Board (gameHeap ?w3 gr) = b'"
    by (simp_all add: placed_def Let_def)
  have ret: "connected w gr \<longrightarrow> (\<exists>w'. HandleMove gr player col w = Some w')"
    using BroadcastState_returns[of ?w3 gr] by (simp add: fs(1) fs(5))
  have after: "\<forall>w'. HandleMove gr player col w = Some w' \<longrightarrow>
            Status (gameHeap w' gr) = ''finished'' \<and> Winner (gameHeap w' gr) = n \<and>
            Board (gameHeap w' gr) = b' \<and>
            count_list (effects w') (SaveGame gr) = count_list (effects w) (SaveGame gr) + 1 \<and>
            (gr < nextGame w \<longrightarrow>
               (\<forall>es w''. run es w' = Some w'' \<longrightarrow>
                  gameHeap w'' gr = gameHeap w' gr \<and>
                  count_list (effects w'') (SaveGame gr) =
                    count_list (effects w') (SaveGame gr)))"
  proof (intro allI impI)
    fix w' assume "HandleMove gr player col w = Some w'"
    then have b: "BroadcastState gr ?w3 = Some w'" by (simp add: fs(1))
    from BroadcastState_frame[OF b]
    have eq: "gameHeap w' = gameHeap ?w3" "effects w' = effects ?w3" "nextGame w' = nextGame ?w3"
      by simp_all
    have fin: "Status (gameHeap w' gr) = ''finished''" using eq st by simp
    have fut: "gr < nextGame w \<longrightarrow>
               (\<forall>es w''. run es w' = Some w'' \<longrightarrow>
                  gameHeap w'' gr = gameHeap w' gr \<and>
                  count_list (effects w'') (SaveGame gr) =
                    count_list (effects w') (SaveGame gr))"
    proof
      assume "gr < nextGame w"
      then have al: "gr < nextGame w'" using eq fs(4) by simp
      show "\<forall>es w''. run es w' = Some w'' \<longrightarrow>
                  gameHeap w'' gr = gameHeap w' gr \<and>
                  count_list (effects w'') (SaveGame gr) =
                    count_list (effects w') (SaveGame gr)"
        using frozen_run[OF _ fin al] by (auto simp: frozen_def)
    qed
    from eq st fs(3) fut
    show "Status (gameHeap w' gr) = ''finished'' \<and> Winner (gameHeap w' gr) = n \<and>
            Board (gameHeap w' gr) = b' \<and>
            count_list (effects w') (SaveGame gr) = count_list (effects w) (SaveGame gr) + 1 \<and>
            (gr < nextGame w \<longrightarrow>
               (\<forall>es w''. run es w' = Some w'' \<longrightarrow>
                  gameHeap w'' gr = gameHeap w' gr \<and>
                  count_list (effects w'') (SaveGame gr) =
                    count_list (effects w') (SaveGame gr)))"
      by simp
  qed
  from fs(1) st fs(3) ret after before show ?thesis by blast
qed

theorem winning_move_finishes_match_once_witness:
  "Status (gameHeap w_three 0) = ''playing'' \<and>
   HandleMove_playerNum (gameHeap w_three 0) (Some 0) = Inr 1 \<and>
   1 = CurrentPlayer (gameHeap w_three 0) \<and>
   makeMove (Board (gameHeap w_three 0)) 3 1 = Inr (2, board_alice_four) \<and>
   run4_through board_alice_four 1 2 3 \<and> connected w_three 0 \<and>
   (\<exists>w'. HandleMove 0 (Some 0) 3 w_three = Some w' \<and>
         Status (gameHeap w' 0) = ''finished'' \<and> Winner (gameHeap w' 0) = 1 \<and>
         count_list (effects w') (SaveGame 0) = 1) \<and>
   Status (gameHeap w_three_dropped 0) = ''playing'' \<and>
   HandleMove_playerNum (gameHeap w_three_dropped 0) (Some 0) = Inr 1 \<and>
   1 = CurrentPlayer (gameHeap w_three_dropped 0) \<and>
   makeMove (Board (gameHeap w_three_dropped 0)) 3 1 = Inr (2, board_alice_four) \<and>
   \<not> connected w_three_dropped 0 \<and> HandleMove 0 (Some 0) 3 w_three_dropped = None \<and>
   HandleMove 0 (Some 0) 3 w_three_dropped =
     BroadcastState 0 (endGame 0 1 (placed 0 (Some 0) 3 2 board_alice_four w_three_dropped)) \<and>
   Status (gameHeap (endGame 0 1 (placed 0 (Some 0) 3 2 board_alice_four w_three_dropped)) 0)
     = ''finished'' \<and>
   Winner (gameHeap (endGame 0 1 (placed 0 (Some 0) 3 2 board_alice_four w_three_dropped)) 0)
     = 1"
proof -
  have h1: "Status (gameHeap w_three 0) = ''playing''" by code_simp
  have h3: "HandleMove_playerNum (gameHeap w_three 0) (Some 0) = Inr 1" by code_simp
  have h4: "1 = CurrentPlayer (gameHeap w_three 0)" by code_simp
  have h5: "makeMove (Board (gameHeap w_three 0)) 3 1 = Inr (2, board_alice_four)" by code_simp
  have h6: "run4_through board_alice_four 1 2 3"
    apply (simp add: run4_through_def directions_def bex_int_unroll)
    apply (simp add: run4_def ball_int_unroll)
    apply (simp add: in_board_def Rows_def Cols_def cell_def board_alice_four_def)
    done
  have h7: "connected w_three 0" by code_simp
  have h8: "count_list (effects w_three) (SaveGame 0) = 0" by code_simp
  note t = winning_move_finishes_match_once[OF h1 h3 h4 h5 h6]
  from t h7 obtain w' where r: "HandleMove 0 (Some 0) 3 w_three = Some w'" by blast
  from t r have "Status (gameHeap w' 0) = ''finished'' \<and> Winner (gameHeap w' 0) = 1 \<and>
         count_list (effects w') (SaveGame 0) = count_list (effects w_three) (SaveGame 0) + 1"
    by blast
  with r h8 have a: "\<exists>w'. HandleMove 0 (Some 0) 3 w_three = Some w' \<and>
         Status (gameHeap w' 0) = ''finished'' \<and> Winner (gameHeap w' 0) = 1 \<and>
         count_list (effects w') (SaveGame 0) = 1"
    by simp
  have d1: "Status (gameHeap w_three_dropped 0) = ''playing''" by code_simp
  have d3: "HandleMove_playerNum (gameHeap w_three_dropped 0) (Some 0) = Inr 1" by code_simp
  have d4: "1 = CurrentPlayer (gameHeap w_three_dropped 0)" by code_simp
  have d5: "makeMove (Board (gameHeap w_three_dropped 0)) 3 1 = Inr (2, board_alice_four)"
    by code_simp
  have d7: "\<not> connected w_three_dropped 0" by code_simp
  have d8: "HandleMove 0 (Some 0) 3 w_three_dropped = None" by code_simp
  from winning_move_finishes_match_once[OF d1 d3 d4 d5 h6]
  have b: "HandleMove 0 (Some 0) 3 w_three_dropped =
     BroadcastState 0 (endGame 0 1 (placed 0 (Some 0) 3 2 board_alice_four w_three_dropped))"
    "Status (gameHeap (endGame 0 1 (placed 0 (Some 0) 3 2 board_alice_four w_three_dropped)) 0)
       = ''finished''"
    "Winner (gameHeap (endGame 0 1 (placed 0 (Some 0) 3 2 board_alice_four w_three_dropped)) 0)
       = 1"
    by blast+
  from h1 h3 h4 h5 h6 h7 a d1 d3 d4 d5 d7 d8 b show ?thesis by blast
qed

text \<open>
  C4. In every match in progress, a move by the side whose turn it is that \<^verbatim>\<open>makeMove\<close>
  accepts, after which every cell of the board is occupied and the board holds no run of
  four of the mover's mark, makes \<^verbatim>\<open>HandleMove\<close> apply \<^verbatim>\<open>endGame\<close> with 0, the mark of neither
  side: in the state that results the match is finished as a draw. What \<^verbatim>\<open>HandleMove\<close>
  still does is to broadcast that state; it returns whenever the channels of the
  recipients are open, and whenever it returns the match is finished with winner 0. (On a
  closed channel the broadcast panics, after the transition.)
\<close>

theorem full_board_without_run_is_draw:
  assumes playing: "Status (gameHeap w gr) = ''playing''"
    and seat: "HandleMove_playerNum (gameHeap w gr) player = Inr n"
    and turn: "n = CurrentPlayer (gameHeap w gr)"
    and move: "makeMove (Board (gameHeap w gr)) col n = Inr (row, b')"
    and full: "board_full b'"
    and norun: "\<not> has_run4 b' n"
  shows "HandleMove gr player col w =
           BroadcastState gr (endGame gr Empty_mark (placed gr player col row b' w)) \<and>
         Status (gameHeap (endGame gr Empty_mark (placed gr player col row b' w)) gr)
           = ''finished'' \<and>
         Winner (gameHeap (endGame gr Empty_mark (placed gr player col row b' w)) gr)
           = Empty_mark \<and>
         Board (gameHeap (endGame gr Empty_mark (placed gr player col row b' w)) gr) = b' \<and>
         (connected w gr \<longrightarrow> (\<exists>w'. HandleMove gr player col w = Some w')) \<and>
         (\<forall>w'. HandleMove gr player col w = Some w' \<longrightarrow>
            Status (gameHeap w' gr) = ''finished'' \<and> Winner (gameHeap w' gr) = Empty_mark \<and>
            Board (gameHeap w' gr) = b')"
proof -
  let ?w3 = "endGame gr Empty_mark (placed gr player col row b' w)"
  have inb: "in_board row col" using makeMove_Inr(1)[OF move] .
  have nowin: "\<not> checkWin b' row col n" using norun checkWin_sound[OF inb] by blast
  have draw: "checkDraw b'"
    using full by (auto simp: board_full_cells checkDraw_iff in_board_def Rows_def)
  from nowin draw have out: "checkWin b' row col n \<and> Empty_mark = n \<or>
             \<not> checkWin b' row col n \<and> checkDraw b' \<and> Empty_mark = Empty_mark" by simp
  note fs = finish_step[OF playing seat turn move out]
  have st: "Status (gameHeap ?w3 gr) = ''finished''" "Winner (gameHeap ?w3 gr) = Empty_mark"
    "Board (gameHeap ?w3 gr) = b'"
    by (simp_all add: placed_def Let_def)
  have ret: "connected w gr \<longrightarrow> (\<exists>w'. HandleMove gr player col w = Some w')"
    using BroadcastState_returns[of ?w3 gr] by (simp add: fs(1) fs(5))
  have after: "\<forall>w'. HandleMove gr player col w = Some w' \<longrightarrow>
            Status (gameHeap w' gr) = ''finished'' \<and> Winner (gameHeap w' gr) = Empty_mark \<and>
            Board (gameHeap w' gr) = b'"
  proof (intro allI impI)
    fix w' assume "HandleMove gr player col w = Some w'"
    then have b: "BroadcastState gr ?w3 = Some w'" by (simp add: fs(1))
    from BroadcastState_frame[OF b] have "gameHeap w' = gameHeap ?w3" by simp
    with st show "Status (gameHeap w' gr) = ''finished'' \<and>
        Winner (gameHeap w' gr) = Empty_mark \<and> Board (gameHeap w' gr) = b'"
      by simp
  qed
  from fs(1) st ret after show ?thesis by blast
qed

theorem full_board_without_run_is_draw_witness:
  "Status (gameHeap w_last_cell 0) = ''playing'' \<and>
   HandleMove_playerNum (gameHeap w_last_cell 0) (Some 1) = Inr 2 \<and>
   2 = CurrentPlayer (gameHeap w_last_cell 0) \<and>
   makeMove (Board (gameHeap w_last_cell 0)) 5 2 = Inr (0, board_drawn) \<and>
   board_full board_drawn \<and> \<not> has_run4 board_drawn 2 \<and> connected w_last_cell 0 \<and>
   (\<exists>w'. HandleMove 0 (Some 1) 5 w_last_cell = Some w' \<and>
         Status (gameHeap w' 0) = ''finished'' \<and> Winner (gameHeap w' 0) = 0) \<and>
   Status (gameHeap w_last_cell_dropped 0) = ''playing'' \<and>
   HandleMove_playerNum (gameHeap w_last_cell_dropped 0) (Some 1) = Inr 2 \<and>
   2 = CurrentPlayer (gameHeap w_last_cell_dropped 0) \<and>
   makeMove (Board (gameHeap w_last_cell_dropped 0)) 5 2 = Inr (0, board_drawn) \<and>
   \<not> connected w_last_cell_dropped 0 \<and>
   HandleMove 0 (Some 1) 5 w_last_cell_dropped = None \<and>
   HandleMove 0 (Some 1) 5 w_last_cell_dropped =
     BroadcastState 0 (endGame 0 Empty_mark (placed 0 (Some 1) 5 0 board_drawn w_last_cell_dropped)) \<and>
   Status (gameHeap (endGame 0 Empty_mark (placed 0 (Some 1) 5 0 board_drawn w_last_cell_dropped)) 0)
     = ''finished'' \<and>
   Winner (gameHeap (endGame 0 Empty_mark (placed 0 (Some 1) 5 0 board_drawn w_last_cell_dropped)) 0)
     = Empty_mark"
proof -
  have h1: "Status (gameHeap w_last_cell 0) = ''playing''" by code_simp
  have h2: "HandleMove_playerNum (gameHeap w_last_cell 0) (Some 1) = Inr 2" by code_simp
  have h3: "2 = CurrentPlayer (gameHeap w_last_cell 0)" by code_simp
  have h4: "makeMove (Board (gameHeap w_last_cell 0)) 5 2 = Inr (0, board_drawn)" by code_simp
  have h5: "board_full board_drawn"
    apply (simp add: board_full_def Rows_def Cols_def int_lessThan_closed ball_int_unroll)
    apply (simp add: cell_def board_drawn_def Empty_mark_def)
    done
  have h6: "\<not> has_run4 board_drawn 2"
    apply (simp add: has_run4_def directions_def Rows_def Cols_def int_lessThan_closed
             bex_int_unroll)
    apply (simp add: run4_def ball_int_unroll)
    apply (simp add: in_board_def Rows_def Cols_def cell_def board_drawn_def)
    done
  have h7: "connected w_last_cell 0" by code_simp
  note t = full_board_without_run_is_draw[OF h1 h2 h3 h4 h5 h6]
  from t h7 obtain w' where r: "HandleMove 0 (Some 1) 5 w_last_cell = Some w'" by blast
  from t r have "Status (gameHeap w' 0) = ''finished'' \<and> Winner (gameHeap w' 0) = Empty_mark"
    by blast
  with r have a: "\<exists>w'. HandleMove 0 (Some 1) 5 w_last_cell = Some w' \<and>
         Status (gameHeap w' 0) = ''finished'' \<and> Winner (gameHeap w' 0) = 0"
    by (simp add: Empty_mark_def)
  have d1: "Status (gameHeap w_last_cell_dropped 0) = ''playing''" by code_simp
  have d2: "HandleMove_playerNum (gameHeap w_last_cell_dropped 0) (Some 1) = Inr 2"
    by code_simp
  have d3: "2 = CurrentPlayer (gameHeap w_last_cell_dropped 0)" by code_simp
  have d4: "makeMove (Board (gameHeap w_last_cell_dropped 0)) 5 2 = Inr (0, board_drawn)"
    by code_simp
  have d7: "\<not> connected w_last_cell_dropped 0" by code_simp
  have d8: "HandleMove 0 (Some 1) 5 w_last_cell_dropped = None" by code_simp
  from full_board_without_run_is_draw[OF d1 d2 d3 d4 h5 h6]
  have b: "HandleMove 0 (Some 1) 5 w_last_cell_dropped =
     BroadcastState 0 (endGame 0 Empty_mark (placed 0 (Some 1) 5 0 board_drawn w_last_cell_dropped))"
    "Status (gameHeap (endGame 0 Empty_mark (placed 0 (Some 1) 5 0 board_drawn w_last_cell_dropped)) 0)
       = ''finished''"
    "Winner (gameHeap (endGame 0 Empty_mark (placed 0 (Some 1) 5 0 board_drawn w_last_cell_dropped)) 0)
       = Empty_mark"
    by blast+
  from h1 h2 h3 h4 h5 h6 h7 a d1 d2 d3 d4 d7 d8 b show ?thesis by blast
qed

section \<open>The boards of reachable states\<close>

lemma boards_ok_same:
  "boards_ok w \<Longrightarrow> (\<And>gr. Board (gameHeap w' gr) = Board (gameHeap w gr)) \<Longrightarrow> boards_ok w'"
  by (simp add: boards_ok_def)

lemma boards_ok_updates [simp]:
  "boards_ok (updPlayer p f w) = boards_ok w"
  "boards_ok (emit es w) = boards_ok w"
  "boards_ok (enqueue p fr w) = boards_ok w"
  "boards_ok (w\<lparr>players := a\<rparr>) = boards_ok w"
  "boards_ok (w\<lparr>games := b\<rparr>) = boards_ok w"
  "boards_ok (w\<lparr>waitingPlayer := c\<rparr>) = boards_ok w"
  "boards_ok (w\<lparr>PrivateRooms := d\<rparr>) = boards_ok w"
  "boards_ok (w\<lparr>nextGame := e\<rparr>) = boards_ok w"
  "boards_ok (w\<lparr>effects := es\<rparr>) = boards_ok w"
  by (simp_all add: boards_ok_def)

lemma boards_ok_BroadcastState:
  "BroadcastState x w = Some w' \<Longrightarrow> boards_ok w \<Longrightarrow> boards_ok w'"
  by (drule BroadcastState_frame) (simp add: boards_ok_def)

lemma boards_ok_endGame: "boards_ok w \<Longrightarrow> boards_ok (endGame x n w)"
  by (simp add: boards_ok_def)

lemma boards_ok_HandleMove:
  assumes mv: "HandleMove x player col w = Some w'" and ok: "boards_ok w"
  shows "boards_ok w'"
  using mv
proof (cases rule: HandleMove_cases)
  case unchanged
  with ok show ?thesis by simp
next
  case (rejected p msg)
  with ok show ?thesis by (simp add: boards_ok_def)
next
  case (accepted n row b')
  have b': "b' \<in> boards"
    using ok accepted(4) HandleMove_playerNum_marks[OF accepted(2)]
    by (auto simp: boards_ok_def intro: boards_move)
  define w2 where "w2 = emit [ProduceEvent ''move_made''
                       [(''gameId'', S (ID (gameHeap w x))),
                        (''player'', S (getPlayerName (updGame x (\<lambda>g. g\<lparr>Board := b'\<rparr>) w) (gameHeap w x) player)),
                        (''column'', I col), (''row'', I row)]] (updGame x (\<lambda>g. g\<lparr>Board := b'\<rparr>) w)"
  have ok2: "boards_ok w2" using ok b' by (simp add: w2_def boards_ok_def)
  then have ok3: "boards_ok (updGame x (\<lambda>g. g\<lparr>CurrentPlayer := 3 - CurrentPlayer g\<rparr>) w2)"
    by (simp add: boards_ok_def)
  from mv have eq:
     "(if checkWin b' row col n then BroadcastState x (endGame x n w2)
       else if checkDraw b' then BroadcastState x (endGame x Empty_mark w2)
       else do {
           w3 \<leftarrow> BroadcastState x (updGame x (\<lambda>g. g\<lparr>CurrentPlayer := 3 - CurrentPlayer g\<rparr>) w2);
           Some (if IsBot (gameHeap w x) \<and> CurrentPlayer (gameHeap w3 x) = Player2_mark
                 then emit [Bot_MakeMove_go x] w3 else w3)
         }) = Some w'"
    unfolding HandleMove_accept[OF accepted] Let_def w2_def .
  consider (win) "checkWin b' row col n" | (draw) "\<not> checkWin b' row col n" "checkDraw b'"
    | (continue) "\<not> checkWin b' row col n" "\<not> checkDraw b'" by blast
  then show ?thesis
  proof cases
    case win
    with eq have "BroadcastState x (endGame x n w2) = Some w'" by simp
    from boards_ok_BroadcastState[OF this boards_ok_endGame[OF ok2]] show ?thesis .
  next
    case draw
    with eq have "BroadcastState x (endGame x Empty_mark w2) = Some w'" by simp
    from boards_ok_BroadcastState[OF this boards_ok_endGame[OF ok2]] show ?thesis .
  next
    case continue
    with eq obtain w3 where
      b: "BroadcastState x (updGame x (\<lambda>g. g\<lparr>CurrentPlayer := 3 - CurrentPlayer g\<rparr>) w2) = Some w3"
      and w': "w' = (if IsBot (gameHeap w x) \<and> CurrentPlayer (gameHeap w3 x) = Player2_mark
                 then emit [Bot_MakeMove_go x] w3 else w3)"
      by (auto simp: bind_eq_Some_conv)
    from boards_ok_BroadcastState[OF b ok3] show ?thesis unfolding w' by (simp add: boards_ok_def)
  qed
qed

lemma boards_ok_HandleDisconnect_expired:
  "HandleDisconnect_expired x p w = Some w' \<Longrightarrow> boards_ok w \<Longrightarrow> boards_ok w'"
  by (auto simp: HandleDisconnect_expired_def Let_def split: if_splits
           dest!: boards_ok_BroadcastState intro: boards_ok_endGame)

lemma boards_ok_HandleReconnect:
  "HandleReconnect x p c w = Some w' \<Longrightarrow> boards_ok w \<Longrightarrow> boards_ok w'"
  by (auto simp: HandleReconnect_def Let_def SendError_Some SendMessage_Some boards_ok_def
           split: if_splits)

lemma boards_ok_startGame:
  "startGame p1 p2 gameID w = Some w' \<Longrightarrow> boards_ok w \<Longrightarrow> boards_ok w'"
  by (auto simp: startGame_def Let_def bind_eq_Some_conv boards_ok_def NewGame_def
           dest!: BroadcastState_frame intro: boards_new)

lemma boards_ok_startBotGame:
  "startBotGame p gameID w = Some w' \<Longrightarrow> boards_ok w \<Longrightarrow> boards_ok w'"
  by (auto simp: startBotGame_def Let_def bind_eq_Some_conv boards_ok_def NewBotGame_def
           dest!: BroadcastState_frame intro: boards_new split: if_splits)

lemma boards_ok_handleJoin:
  "handleJoin p u gameID w = Some w' \<Longrightarrow> boards_ok w \<Longrightarrow> boards_ok w'"
  by (auto simp: handleJoin_def Let_def bind_eq_Some_conv SendError_Some SendMessage_Some
           split: if_splits option.splits
           intro: boards_ok_startGame)

lemma boards_ok_handleMove:
  "handleMove p col w = Some w' \<Longrightarrow> boards_ok w \<Longrightarrow> boards_ok w'"
  by (auto simp: handleMove_def SendError_Some split: option.splits
           intro: boards_ok_HandleMove)

lemma boards_ok_handleReconnect:
  "handleReconnect p u w = Some w' \<Longrightarrow> boards_ok w \<Longrightarrow> boards_ok w'"
  by (auto simp: handleReconnect_def SendError_Some split: option.splits
           intro: boards_ok_HandleReconnect)

lemma boards_ok_handleReconnect_discard:
  "handleReconnect_discard p w = Some w' \<Longrightarrow> boards_ok w \<Longrightarrow> boards_ok w'"
  by (auto simp: handleReconnect_discard_def boards_ok_def split: if_splits)

lemma boards_ok_UnregisterPlayer:
  "UnregisterPlayer p order w = Some w' \<Longrightarrow> boards_ok w \<Longrightarrow> boards_ok w'"
  by (auto simp: UnregisterPlayer_def Let_def HandleDisconnect_def boards_ok_def
           split: if_splits option.splits)

lemma boards_ok_handleCreatePrivateRoom:
  "handleCreatePrivateRoom p u draws w = Some w' \<Longrightarrow> boards_ok w \<Longrightarrow> boards_ok w'"
  by (auto simp: handleCreatePrivateRoom_def Let_def bind_eq_Some_conv SendError_Some
                 SendMessage_Some boards_ok_def
           split: if_splits option.splits)

lemma boards_ok_handleCreatePrivateRoom_expired:
  "handleCreatePrivateRoom_expired c p w = Some w' \<Longrightarrow> boards_ok w \<Longrightarrow> boards_ok w'"
  by (auto simp: handleCreatePrivateRoom_expired_def SendMessage_Some boards_ok_def
           split: if_splits)

lemma boards_ok_handleJoinPrivateRoom:
  "handleJoinPrivateRoom p u c gameID w = Some w' \<Longrightarrow> boards_ok w \<Longrightarrow> boards_ok w'"
  by (auto simp: handleJoinPrivateRoom_def Let_def SendError_Some
           split: if_splits option.splits
           intro: boards_ok_startGame)

lemma boards_ok_HandleMessage:
  "HandleMessage p rawMsg gameID draws w = Some w' \<Longrightarrow> boards_ok w \<Longrightarrow> boards_ok w'"
  unfolding HandleMessage_def
  by (auto split: option.splits if_splits simp: SendError_Some
           intro: boards_ok_handleJoin boards_ok_handleMove boards_ok_handleReconnect
                 boards_ok_handleCreatePrivateRoom boards_ok_handleJoinPrivateRoom)

lemma boards_ok_step:
  assumes "step e w = Some w'" and "boards_ok w"
  shows "boards_ok w'"
proof (cases e)
  case (Connect p)
  with assms show ?thesis by (auto simp: AddPlayer_def SendMessage_Some)
next
  case (Receive p rawMsg gameID draws)
  with assms show ?thesis by (auto intro: boards_ok_HandleMessage)
next
  case (Disconnect p order)
  with assms show ?thesis by (auto intro: boards_ok_UnregisterPlayer)
next
  case (Fire t gameID)
  with assms show ?thesis
    by (cases t)
       (auto intro: boards_ok_startBotGame boards_ok_handleCreatePrivateRoom_expired
                   boards_ok_HandleDisconnect_expired)
next
  case (BotMove x col)
  with assms show ?thesis by (auto simp: Bot_MakeMove_def intro: boards_ok_HandleMove)
next
  case (Discard p)
  with assms show ?thesis by (auto intro: boards_ok_handleReconnect_discard)
qed

lemma boards_ok_initWorld: "boards_ok initWorld"
  by (simp add: boards_ok_def initWorld_def NewBotGame_def boards_new)

lemma reachable_boards_ok: "reachable w \<Longrightarrow> boards_ok w"
  by (induction rule: reachable.induct) (auto intro: boards_ok_initWorld boards_ok_step)

lemma run_reachable: "run es w = Some w' \<Longrightarrow> reachable w \<Longrightarrow> reachable w'"
proof (induction es arbitrary: w)
  case Nil
  then show ?case by simp
next
  case (Cons e es)
  from Cons.prems(1) obtain w1 where en: "enabled e w" and s: "step e w = Some w1"
    and r: "run es w1 = Some w'"
    by (auto split: if_splits option.splits)
  from reachable_step[OF Cons.prems(2) en s] Cons.IH[OF r] show ?case by simp
qed

text \<open>
  C9. In every reachable state the board of every match obeys gravity: in each column a
  cell is occupied only if the cell below it is. This is so because an accepted move
  places its mark in a cell that was empty while every cell below it in the column was
  occupied. Hence on such a board the draw check, which looks at the top row only, holds
  exactly when every cell of the board is occupied.
\<close>

theorem reachable_boards_obey_gravity:
  "reachable w \<Longrightarrow>
   gravity (Board (gameHeap w gr)) \<and>
   (checkDraw (Board (gameHeap w gr)) \<longleftrightarrow> board_full (Board (gameHeap w gr))) \<and>
   (\<forall>col playerNum row b'.
      makeMove (Board (gameHeap w gr)) col playerNum = Inr (row, b') \<longrightarrow>
        cell (Board (gameHeap w gr)) row col = Empty_mark \<and>
        (\<forall>r. row < r \<and> r < Rows \<longrightarrow> cell (Board (gameHeap w gr)) r col \<noteq> Empty_mark) \<and>
        b' = setCell (Board (gameHeap w gr)) row col playerNum)"
  using reachable_boards_ok[of w] boards_wf_gravity[of "Board (gameHeap w gr)"]
        gravity_checkDraw[of "Board (gameHeap w gr)"]
  by (auto simp: boards_ok_def dest: makeMove_Inr)

lemma run_Some: "run es w \<noteq> None \<Longrightarrow> run es w = Some (the (run es w))"
  by simp
theorem reachable_boards_obey_gravity_witness:
  "reachable w_three \<and> gravity (Board (gameHeap w_three 0)) \<and>
   (checkDraw (Board (gameHeap w_three 0)) \<longleftrightarrow> board_full (Board (gameHeap w_three 0))) \<and>
   cell (Board (gameHeap w_three 0)) 5 3 = 1"
proof -
  have "run (ev_lobby @ moves [3, 2, 3, 2, 3, 2]) initWorld \<noteq> None" by code_simp
  then have "run (ev_lobby @ moves [3, 2, 3, 2, 3, 2]) initWorld = Some w_three"
    by (simp add: w_three_def after_moves_def)
  from run_reachable[OF this reachable_init] have r: "reachable w_three" .
  have c: "cell (Board (gameHeap w_three 0)) 5 3 = 1" by code_simp
  from reachable_boards_obey_gravity[OF r, of 0] r c show ?thesis by simp
qed

section \<open>Matchmaking\<close>

lemma startGame_result:
  assumes c1: "\<not> Send_closed (playerHeap w p1)" and c2: "\<not> Send_closed (playerHeap w p2)"
  shows "\<exists>w'. startGame p1 p2 gameID w = Some w' \<and>
           gameHeap w' = (gameHeap w)(nextGame w := NewGame gameID p1 p2) \<and>
           nextGame w' = Suc (nextGame w) \<and>
           games w' = (games w)(gameID \<mapsto> nextGame w) \<and>
           players w' = players w \<and> waitingPlayer w' = waitingPlayer w \<and>
           PrivateRooms w' = PrivateRooms w \<and>
           Game (playerHeap w' p1) = Some (nextGame w) \<and>
           Game (playerHeap w' p2) = Some (nextGame w)"
proof -
  define w4 where "w4 = updPlayer p2 (\<lambda>pl. pl\<lparr>Game := Some (nextGame w)\<rparr>)
     (updPlayer p1 (\<lambda>pl. pl\<lparr>Game := Some (nextGame w)\<rparr>)
       (w\<lparr>gameHeap := (gameHeap w)(nextGame w := NewGame gameID p1 p2), nextGame := Suc (nextGame w),
          games := (games w)(gameID \<mapsto> nextGame w)\<rparr>))"
  have conn: "connected w4 (nextGame w)"
    using c1 c2 by (simp add: connected_def recipients_def w4_def NewGame_def)
  then obtain w5 where b: "BroadcastState (nextGame w) w4 = Some w5"
    using BroadcastState_returns by blast
  have sg: "startGame p1 p2 gameID w = Some (emit [ProduceEvent ''game_started''
                      [(''gameId'', S gameID),
                       (''player1'', S (Username (playerHeap w5 p1))),
                       (''player2'', S (Username (playerHeap w5 p2))),
                       (''isBot'', B False)]] w5)"
    using b by (simp add: startGame_def Let_def w4_def)
  from BroadcastState_frame[OF b] BroadcastState_players[OF b, of p1] BroadcastState_players[OF b, of p2]
  show ?thesis unfolding sg by (simp add: w4_def)
qed

lemma startBotGame_result:
  assumes wait: "waitingPlayer w = Some player" and c: "\<not> Send_closed (playerHeap w player)"
  shows "\<exists>w'. startBotGame player gameID w = Some w' \<and>
           gameHeap w' = (gameHeap w)(nextGame w := NewBotGame gameID player) \<and>
           nextGame w' = Suc (nextGame w) \<and>
           games w' = (games w)(gameID \<mapsto> nextGame w) \<and>
           players w' = players w \<and> waitingPlayer w' = None \<and>
           PrivateRooms w' = PrivateRooms w \<and>
           Game (playerHeap w' player) = Some (nextGame w)"
proof -
  define w4 where "w4 = updPlayer player (\<lambda>pl. pl\<lparr>Game := Some (nextGame w)\<rparr>)
       (w\<lparr>waitingPlayer := None,
          gameHeap := (gameHeap w)(nextGame w := NewBotGame gameID player), nextGame := Suc (nextGame w),
          games := (games w)(gameID \<mapsto> nextGame w)\<rparr>)"
  have conn: "connected w4 (nextGame w)"
    using c by (simp add: connected_def recipients_def w4_def NewBotGame_def)
  then obtain w5 where b: "BroadcastState (nextGame w) w4 = Some w5"
    using BroadcastState_returns by blast
  have sg: "startBotGame player gameID w = Some (emit [ProduceEvent ''game_started''
                            [(''gameId'', S gameID),
                             (''player1'', S (Username (playerHeap w5 player))),
                             (''player2'', S ''Bot''),
                             (''isBot'', B True)]] w5)"
    using b wait by (simp add: startBotGame_def Let_def w4_def)
  from BroadcastState_frame[OF b] BroadcastState_players[OF b, of player]
  show ?thesis unfolding sg by (simp add: w4_def)
qed

text \<open>
  C5. A join under a free, non-empty name when nobody waits makes the joiner the waiting
  entry and arms its matchmaking timer. A join under a free, non-empty name while another
  handle waits pairs the two in a new match in which the waiting handle, the one that
  joined first, is participant A (\<^verbatim>\<open>Player1\<close>), the joiner is B, and the current turn is A.
  When the matchmaking timer fires for a handle that still waits, a match against the
  automated opponent is created with that handle as A and the current turn A. The
  channels of the handles concerned are open.
\<close>

theorem first_joiner_is_participant_A:
  "(username \<noteq> [] \<and> players w username = None \<and> waitingPlayer w = None \<and>
    \<not> Send_closed (playerHeap w player)
    \<longrightarrow> (\<exists>w'. handleJoin player username gameID w = Some w' \<and>
              waitingPlayer w' = Some player \<and> players w' username = Some player \<and>
              AfterFunc (MatchmakingTimer player) \<in> set (effects w') \<and>
              nextGame w' = nextGame w \<and> gameHeap w' = gameHeap w)) \<and>
   (username \<noteq> [] \<and> players w username = None \<and> waitingPlayer w = Some waiter \<and>
    waiter \<noteq> player \<and> \<not> Send_closed (playerHeap w waiter) \<and>
    \<not> Send_closed (playerHeap w player)
    \<longrightarrow> (\<exists>w'. handleJoin player username gameID w = Some w' \<and>
              Player1 (gameHeap w' (nextGame w)) = waiter \<and>
              Player2 (gameHeap w' (nextGame w)) = Some player \<and>
              \<not> IsBot (gameHeap w' (nextGame w)) \<and>
              CurrentPlayer (gameHeap w' (nextGame w)) = Player1_mark \<and>
              Status (gameHeap w' (nextGame w)) = ''playing'' \<and>
              Board (gameHeap w' (nextGame w)) = zeroBoard \<and>
              games w' gameID = Some (nextGame w) \<and> waitingPlayer w' = None \<and>
              Game (playerHeap w' waiter) = Some (nextGame w) \<and>
              Game (playerHeap w' player) = Some (nextGame w))) \<and>
   (waitingPlayer w = Some player \<and> \<not> Send_closed (playerHeap w player)
    \<longrightarrow> (\<exists>w'. startBotGame player gameID w = Some w' \<and>
              Player1 (gameHeap w' (nextGame w)) = player \<and>
              Player2 (gameHeap w' (nextGame w)) = None \<and>
              IsBot (gameHeap w' (nextGame w)) \<and>
              CurrentPlayer (gameHeap w' (nextGame w)) = Player1_mark \<and>
              Status (gameHeap w' (nextGame w)) = ''playing'' \<and>
              Board (gameHeap w' (nextGame w)) = zeroBoard \<and>
              games w' gameID = Some (nextGame w) \<and> waitingPlayer w' = None \<and>
              Game (playerHeap w' player) = Some (nextGame w)))"
proof (intro conjI impI)
  assume a: "username \<noteq> [] \<and> players w username = None \<and> waitingPlayer w = None \<and>
    \<not> Send_closed (playerHeap w player)"
  then show "\<exists>w'. handleJoin player username gameID w = Some w' \<and>
              waitingPlayer w' = Some player \<and> players w' username = Some player \<and>
              AfterFunc (MatchmakingTimer player) \<in> set (effects w') \<and>
              nextGame w' = nextGame w \<and> gameHeap w' = gameHeap w"
    by (simp add: handleJoin_def Let_def SendMessage_def)
next
  assume a: "username \<noteq> [] \<and> players w username = None \<and> waitingPlayer w = Some waiter \<and>
    waiter \<noteq> player \<and> \<not> Send_closed (playerHeap w waiter) \<and>
    \<not> Send_closed (playerHeap w player)"
  define w2 where "w2 = (updPlayer player (\<lambda>pl. pl\<lparr>Username := username\<rparr>) w)
      \<lparr>players := (players w)(username \<mapsto> player), waitingPlayer := None\<rparr>"
  have hj: "handleJoin player username gameID w = startGame waiter player gameID w2"
    using a by (simp add: handleJoin_def Let_def w2_def)
  have "\<not> Send_closed (playerHeap w2 waiter)" "\<not> Send_closed (playerHeap w2 player)"
    using a by (simp_all add: w2_def)
  from startGame_result[OF this, of gameID]
  show "\<exists>w'. handleJoin player username gameID w = Some w' \<and>
              Player1 (gameHeap w' (nextGame w)) = waiter \<and>
              Player2 (gameHeap w' (nextGame w)) = Some player \<and>
              \<not> IsBot (gameHeap w' (nextGame w)) \<and>
              CurrentPlayer (gameHeap w' (nextGame w)) = Player1_mark \<and>
              Status (gameHeap w' (nextGame w)) = ''playing'' \<and>
              Board (gameHeap w' (nextGame w)) = zeroBoard \<and>
              games w' gameID = Some (nextGame w) \<and> waitingPlayer w' = None \<and>
              Game (playerHeap w' waiter) = Some (nextGame w) \<and>
              Game (playerHeap w' player) = Some (nextGame w)"
    unfolding hj by (auto simp: w2_def NewGame_def)
next
  assume a: "waitingPlayer w = Some player \<and> \<not> Send_closed (playerHeap w player)"
  then have "waitingPlayer w = Some player" "\<not> Send_closed (playerHeap w player)" by simp_all
  from startBotGame_result[OF this, of gameID]
  show "\<exists>w'. startBotGame player gameID w = Some w' \<and>
              Player1 (gameHeap w' (nextGame w)) = player \<and>
              Player2 (gameHeap w' (nextGame w)) = None \<and>
              IsBot (gameHeap w' (nextGame w)) \<and>
              CurrentPlayer (gameHeap w' (nextGame w)) = Player1_mark \<and>
              Status (gameHeap w' (nextGame w)) = ''playing'' \<and>
              Board (gameHeap w' (nextGame w)) = zeroBoard \<and>
              games w' gameID = Some (nextGame w) \<and> waitingPlayer w' = None \<and>
              Game (playerHeap w' player) = Some (nextGame w)"
    by (auto simp: NewBotGame_def)
qed

theorem first_joiner_is_participant_A_witness:
  "''bob'' \<noteq> [] \<and> players w_alone ''bob'' = None \<and> waitingPlayer w_alone = Some 0 \<and>
   (0::nat) \<noteq> 1 \<and> \<not> Send_closed (playerHeap w_alone 0) \<and> \<not> Send_closed (playerHeap w_alone 1) \<and>
   (\<exists>w'. handleJoin 1 ''bob'' ''g1'' w_alone = Some w' \<and>
         Player1 (gameHeap w' 0) = 0 \<and> Player2 (gameHeap w' 0) = Some 1 \<and>
         CurrentPlayer (gameHeap w' 0) = Player1_mark) \<and>
   (\<exists>w'. startBotGame 0 ''g1'' w_alone = Some w' \<and>
         Player1 (gameHeap w' 0) = 0 \<and> IsBot (gameHeap w' 0) \<and>
         CurrentPlayer (gameHeap w' 0) = Player1_mark)"
proof -
  have h1: "players w_alone ''bob'' = None" by code_simp
  have h2: "waitingPlayer w_alone = Some 0" by code_simp
  have h3: "\<not> Send_closed (playerHeap w_alone 0)" "\<not> Send_closed (playerHeap w_alone 1)"
    by code_simp+
  have h4: "nextGame w_alone = 0" by code_simp
  note t = first_joiner_is_participant_A[where username = "''bob''" and w = w_alone
      and waiter = 0 and player = 1 and gameID = "''g1''"]
  from t h1 h2 h3 h4
  have a: "\<exists>w'. handleJoin 1 ''bob'' ''g1'' w_alone = Some w' \<and>
         Player1 (gameHeap w' 0) = 0 \<and> Player2 (gameHeap w' 0) = Some 1 \<and>
         CurrentPlayer (gameHeap w' 0) = Player1_mark"
    by auto
  note t' = first_joiner_is_participant_A[where username = "''bob''" and w = w_alone
      and waiter = 0 and player = 0 and gameID = "''g1''"]
  from t' h2 h3 h4
  have b: "\<exists>w'. startBotGame 0 ''g1'' w_alone = Some w' \<and>
         Player1 (gameHeap w' 0) = 0 \<and> IsBot (gameHeap w' 0) \<and>
         CurrentPlayer (gameHeap w' 0) = Player1_mark"
    by auto
  from a b h1 h2 h3 show ?thesis by simp
qed

text \<open>
  C6. When the matchmaking timer fires for a handle that is not the waiting entry, because
  it has been paired or has left, the state is what it was: the player registry, the
  waiting slot, the table of matches and everything else are unchanged and no match is
  created.
\<close>

theorem stale_matchmaking_timer_does_nothing:
  "waitingPlayer w \<noteq> Some player \<Longrightarrow>
   startBotGame player gameID w = Some w \<and> fire (MatchmakingTimer player) gameID w = Some w"
  by (simp add: startBotGame_def)

theorem stale_matchmaking_timer_does_nothing_witness:
  "waitingPlayer w_three \<noteq> Some 0 \<and> startBotGame 0 ''g2'' w_three = Some w_three \<and>
   fire (MatchmakingTimer 0) ''g2'' w_three = Some w_three"
proof -
  have h: "waitingPlayer w_three \<noteq> Some 0" by code_simp
  from stale_matchmaking_timer_does_nothing[OF h] h show ?thesis by simp
qed

section \<open>Private rooms\<close>

lemma generateRoomCode_Some:
  "generateRoomCode rooms draws = Some roomCode \<Longrightarrow> \<forall>d \<in> set draws. d < length charset \<Longrightarrow>
   length roomCode = codeLength \<and> set roomCode \<subseteq> set charset \<and> rooms roomCode = None"
proof (induction rooms draws rule: generateRoomCode.induct)
  case (1 rooms draws)
  from "1.prems"(1) have len: "\<not> length draws < codeLength"
    by (subst (asm) generateRoomCode.simps) (simp split: if_splits)
  define cand where "cand = map (\<lambda>d. charset ! d) (take codeLength draws)"
  show ?case
  proof (cases "rooms cand = None")
    case True
    with "1.prems"(1) len have rc: "roomCode = cand"
      by (subst (asm) generateRoomCode.simps) (simp add: cand_def Let_def)
    have "set (take codeLength draws) \<subseteq> set draws" by (rule set_take_subset)
    with "1.prems"(2) have "set cand \<subseteq> set charset"
      by (auto simp: cand_def)
    with True len rc show ?thesis by (simp add: cand_def)
  next
    case False
    with "1.prems"(1) len have "generateRoomCode rooms (drop codeLength draws) = Some roomCode"
      by (subst (asm) generateRoomCode.simps) (auto simp: cand_def Let_def)
    moreover have "\<forall>d \<in> set (drop codeLength draws). d < length charset"
      using "1.prems"(2) by (meson in_set_dropD)
    ultimately show ?thesis using "1.IH"[OF len cand_def] False by simp
  qed
qed

lemma generateRoomCode_returns:
  "codeLength \<le> length draws \<Longrightarrow> rooms (map (\<lambda>d. charset ! d) (take codeLength draws)) = None \<Longrightarrow>
   generateRoomCode rooms draws = Some (map (\<lambda>d. charset ! d) (take codeLength draws))"
  by (subst generateRoomCode.simps) (simp add: Let_def)

lemma join_room_starts_match:
  assumes room: "PrivateRooms w roomCode = Some roomHost"
    and name: "username \<noteq> []" "players w username = None"
              "Username (playerHeap w roomHost) \<noteq> username"
    and code: "roomCode \<noteq> []"
    and channels: "\<not> Send_closed (playerHeap w roomHost)" "\<not> Send_closed (playerHeap w player)"
  shows "\<exists>w'. handleJoinPrivateRoom player username roomCode gameID w = Some w' \<and>
           gameHeap w' (nextGame w) = NewGame gameID roomHost player \<and>
           games w' gameID = Some (nextGame w) \<and>
           PrivateRooms w' = (PrivateRooms w)(roomCode := None) \<and>
           players w' = (players w)(username \<mapsto> player)"
proof -
  define w3 where "w3 = (updPlayer player (\<lambda>pl. pl\<lparr>Username := username\<rparr>) w)
      \<lparr>players := (players w)(username \<mapsto> player),
        PrivateRooms := (PrivateRooms w)(roomCode := None)\<rparr>"
  have hj: "handleJoinPrivateRoom player username roomCode gameID w =
              startGame roomHost player gameID w3"
    using room name code by (simp add: handleJoinPrivateRoom_def Let_def w3_def)
  have "\<not> Send_closed (playerHeap w3 roomHost)" "\<not> Send_closed (playerHeap w3 player)"
    using channels by (simp_all add: w3_def)
  from startGame_result[OF this, of gameID] show ?thesis
    unfolding hj by (auto simp: w3_def)
qed

lemma room_expiry_removes_and_notifies:
  assumes "PrivateRooms w roomCode = Some player" and "\<not> Send_closed (playerHeap w player)"
  shows "handleCreatePrivateRoom_expired roomCode player w =
           Some (enqueue player
                   (Frame ''private_room_expired''
                      (MessageData ''No one joined your room. It has expired.''))
                   (w\<lparr>PrivateRooms := (PrivateRooms w)(roomCode := None)\<rparr>))"
  using assms by (simp add: handleCreatePrivateRoom_expired_def SendMessage_def)

lemma UnregisterPlayer_rooms_single:
  "rooms roomCode = Some player \<Longrightarrow> \<forall>c. c \<noteq> roomCode \<longrightarrow> rooms c \<noteq> Some player \<Longrightarrow>
   roomCode \<in> set order \<Longrightarrow> UnregisterPlayer_rooms player order rooms = rooms(roomCode := None)"
proof (induction order)
  case Nil
  from Nil.prems(3) show ?case by simp
next
  case (Cons a order)
  show ?case
  proof (cases "rooms a = Some player")
    case True
    with Cons.prems(2) have "a = roomCode" by blast
    with True show ?thesis by simp
  next
    case False
    with Cons.prems(1,3) have "roomCode \<in> set order" by auto
    from Cons.IH[OF Cons.prems(1,2) this] False show ?thesis by simp
  qed
qed

lemma host_disconnect_removes_only_room:
  assumes room: "PrivateRooms w roomCode = Some player"
    and only: "\<forall>c. c \<noteq> roomCode \<longrightarrow> PrivateRooms w c \<noteq> Some player"
    and visited: "roomCode \<in> set order"
    and name: "Username (playerHeap w player) \<noteq> []"
    and channel: "\<not> Send_closed (playerHeap w player)"
  shows "\<exists>w'. UnregisterPlayer player order w = Some w' \<and>
           PrivateRooms w' = (PrivateRooms w)(roomCode := None)"
proof -
  have "UnregisterPlayer_rooms player order (PrivateRooms w) = (PrivateRooms w)(roomCode := None)"
    by (rule UnregisterPlayer_rooms_single[OF room only visited])
  with name channel show ?thesis
    by (auto simp: UnregisterPlayer_def Let_def HandleDisconnect_def split: option.splits)
qed

lemma enqueue_inject: "enqueue p fr w = enqueue p fr' w \<Longrightarrow> fr = fr'"
  by (drule arg_cong[where f = "\<lambda>w. Send (playerHeap w p)"]) simp

text \<open>
  C10. Let a room be open whose host is registered in the player registry under its own
  name. A request to join that room under that same name is refused by the check of the
  name, with the error \<^verbatim>\<open>Username already taken.\<close>; the answer is not
  \<^verbatim>\<open>You cannot join your own room.\<close>, a branch that this request cannot reach. (Were the
  host not registered under its name, that branch would answer.) After either refusal the
  room is still in the registry and no match has been created: the error frame is the
  only change.
\<close>

theorem own_room_join_is_rejected_as_taken:
  assumes room: "PrivateRooms w roomCode = Some host"
    and name: "Username (playerHeap w host) = username" "username \<noteq> []"
    and code: "roomCode \<noteq> []"
    and channel: "\<not> Send_closed (playerHeap w player)"
  shows "(players w username = Some host \<longrightarrow>
            handleJoinPrivateRoom player username roomCode gameID w =
              Some (enqueue player (Frame ''error'' (MessageData ''Username already taken.'')) w) \<and>
            handleJoinPrivateRoom player username roomCode gameID w \<noteq>
              Some (enqueue player (Frame ''error'' (MessageData ''You cannot join your own room.'')) w)) \<and>
         (players w username = None \<longrightarrow>
            handleJoinPrivateRoom player username roomCode gameID w =
              Some (enqueue player (Frame ''error'' (MessageData ''You cannot join your own room.'')) w)) \<and>
         (\<forall>fr. PrivateRooms (enqueue player fr w) roomCode = Some host \<and>
               games (enqueue player fr w) = games w \<and>
               gameHeap (enqueue player fr w) = gameHeap w \<and>
               nextGame (enqueue player fr w) = nextGame w)"
  using assms
  by (auto simp: handleJoinPrivateRoom_def SendError_def SendMessage_def dest: enqueue_inject)

theorem own_room_join_is_rejected_as_taken_witness:
  "PrivateRooms w_room ''AAAAAA'' = Some 0 \<and> Username (playerHeap w_room 0) = ''hoa'' \<and>
   ''hoa'' \<noteq> [] \<and> ''AAAAAA'' \<noteq> [] \<and> \<not> Send_closed (playerHeap w_room 1) \<and>
   players w_room ''hoa'' = Some 0 \<and>
   handleJoinPrivateRoom 1 ''hoa'' ''AAAAAA'' ''g1'' w_room =
     Some (enqueue 1 (Frame ''error'' (MessageData ''Username already taken.'')) w_room)"
proof -
  have h1: "PrivateRooms w_room ''AAAAAA'' = Some 0" by code_simp
  have h2: "Username (playerHeap w_room 0) = ''hoa''" by code_simp
  have h3: "''hoa'' \<noteq> []" "''AAAAAA'' \<noteq> []" by simp_all
  have h4: "\<not> Send_closed (playerHeap w_room 1)" by code_simp
  have h5: "players w_room ''hoa'' = Some 0" by code_simp
  from own_room_join_is_rejected_as_taken[OF h1 h2 h3 h4, of "''g1''"] h1 h2 h4 h5
  show ?thesis by simp
qed

text \<open>
  C7, at an input where the code departs from it. One connection creates a room as \<^verbatim>\<open>a\<close>
  and a second room as \<^verbatim>\<open>b\<close>; nothing in \<^verbatim>\<open>handleCreatePrivateRoom\<close> prevents that. When its
  read loop ends, the loop of \<^verbatim>\<open>UnregisterPlayer\<close> deletes the first of the two rooms that
  it visits and breaks, so the other code stays in the registry although its host has
  disconnected before anyone joined. When the expiry timer of that room fires it still
  finds the room, deletes it, and panics on the send to the host's closed channel.
\<close>

theorem host_of_two_rooms_leaves_one_behind:
  "run (ev_rooms [''AAAAAA'', ''BBBBBB'']) initWorld \<noteq> None \<and>
   PrivateRooms (w_rooms [''AAAAAA'', ''BBBBBB'']) ''AAAAAA'' = None \<and>
   PrivateRooms (w_rooms [''AAAAAA'', ''BBBBBB'']) ''BBBBBB'' = Some 0 \<and>
   Send_closed (playerHeap (w_rooms [''AAAAAA'', ''BBBBBB'']) 0) \<and>
   run (ev_rooms [''AAAAAA'', ''BBBBBB''] @ [Fire (RoomTimer ''BBBBBB'' 0) []]) initWorld = None \<and>
   run (ev_rooms [''BBBBBB'', ''AAAAAA'']) initWorld \<noteq> None \<and>
   PrivateRooms (w_rooms [''BBBBBB'', ''AAAAAA'']) ''AAAAAA'' = Some 0 \<and>
   PrivateRooms (w_rooms [''BBBBBB'', ''AAAAAA'']) ''BBBBBB'' = None \<and>
   run (ev_rooms [''BBBBBB'', ''AAAAAA''] @ [Fire (RoomTimer ''AAAAAA'' 0) []]) initWorld = None"
  by code_simp

section \<open>A move on a finished match\<close>

lemma endGame_clears_recipients:
  "p \<in> set (recipients w gr) \<Longrightarrow> Game (playerHeap (endGame gr n w) p) = None"
  by (auto simp: recipients_def endGame_def Let_def updPlayer_def emit_def updGame_def
           split: option.splits if_splits)

text \<open>
  C8, amended. For every match whose status is not in progress, a move submitted to it by
  any actor is a no-op: \<^verbatim>\<open>HandleMove\<close> returns with the whole state unchanged, and so sends
  nothing to the actor. The rejection that a participant of a finished match receives
  comes from the manager: \<^verbatim>\<open>endGame\<close> clears the match reference of the handles of the
  match, and \<^verbatim>\<open>handleMove\<close> answers a handle without a match with the error
  \<^verbatim>\<open>You are not in a game.\<close> and changes nothing else.
\<close>

theorem move_on_finished_match_is_silent:
  "(Status (gameHeap w gr) \<noteq> ''playing'' \<longrightarrow> HandleMove gr actor col w = Some w) \<and>
   (\<forall>p \<in> set (recipients w gr). Game (playerHeap (endGame gr n w) p) = None) \<and>
   (Game (playerHeap w p) = None \<and> \<not> Send_closed (playerHeap w p) \<longrightarrow>
      handleMove p col w =
        Some (enqueue p (Frame ''error'' (MessageData ''You are not in a game.'')) w))"
  by (simp add: HandleMove_def endGame_clears_recipients handleMove_def SendError_def
        SendMessage_def)

theorem move_on_finished_match_is_silent_witness:
  "Status (gameHeap w_won 0) \<noteq> ''playing'' \<and> HandleMove 0 (Some 1) 2 w_won = Some w_won \<and>
   Game (playerHeap w_won 1) = None \<and> \<not> Send_closed (playerHeap w_won 1) \<and>
   handleMove 1 2 w_won =
     Some (enqueue 1 (Frame ''error'' (MessageData ''You are not in a game.'')) w_won)"
proof -
  have h1: "Status (gameHeap w_won 0) \<noteq> ''playing''" by code_simp
  have h2: "Game (playerHeap w_won 1) = None" by code_simp
  have h3: "\<not> Send_closed (playerHeap w_won 1)" by code_simp
  from move_on_finished_match_is_silent[where w = w_won and gr = 0 and actor = "Some 1"
      and col = 2 and p = 1] h1 h2 h3
  show ?thesis by simp
qed

text \<open>
  C8 as stated fails: after alice's winning move the match is finished, and a move that
  bob submits to it returns the state as it was, with no frame added to bob's channel.
\<close>

theorem move_on_finished_match_sends_nothing:
  "Status (gameHeap w_won 0) = ''finished'' \<and> HandleMove 0 (Some 1) 2 w_won = Some w_won \<and>
   Send (playerHeap (the (HandleMove 0 (Some 1) 2 w_won)) 1) = Send (playerHeap w_won 1)"
proof -
  have h: "Status (gameHeap w_won 0) = ''finished''" by code_simp
  then have "HandleMove 0 (Some 1) 2 w_won = Some w_won" by (simp add: HandleMove_def)
  with h show ?thesis by simp
qed

section \<open>Disconnecting and reconnecting\<close>

lemma BroadcastState_panics:
  "Send_closed (playerHeap w (Player1 (gameHeap w gr))) \<Longrightarrow> BroadcastState gr w = None"
  by (simp add: BroadcastState_def Let_def SendMessage_def)

lemma HandleReconnect_keeps_matches:
  "HandleReconnect gr p c w = Some w' \<Longrightarrow> gameHeap w' = gameHeap w"
  by (auto simp: HandleReconnect_def Let_def SendError_Some SendMessage_Some split: if_splits)

lemma forfeit_after_reconnect:
  assumes "HandleReconnect gr p c w = Some w'" and "Status (gameHeap w gr) = ''playing''"
  shows "HandleDisconnect_expired gr p w' =
           BroadcastState gr
             (endGame gr (if p = Player1 (gameHeap w gr) then Player2_mark else Player1_mark) w')"
  using assms HandleReconnect_keeps_matches[OF assms(1)]
  by (simp add: HandleDisconnect_expired_def)

lemma forfeit_panics_on_closed_channel:
  assumes "Status (gameHeap w gr) = ''playing''" and "p \<in> set (recipients w gr)"
    and "Send_closed (playerHeap w p)"
  shows "HandleDisconnect_expired gr p w = None"
  using assms
  by (auto simp: HandleDisconnect_expired_def Let_def BroadcastState_def SendMessage_def
                 recipients_def endGame_players
           split: option.splits if_splits)

text \<open>
  C1, at an input where the code departs from it. Alice and bob play; alice's read loop
  ends, so \<^verbatim>\<open>UnregisterPlayer\<close> deletes her name from the registry, arms the reconnection
  timer and closes her channel. A new connection that sends \<^verbatim>\<open>reconnect\<close> with her name
  while the match is in progress and before the timer fires is refused with
  \<^verbatim>\<open>No active game found to reconnect to.\<close>, the name being no longer registered. The
  closure of the timer tests the status only, so when it fires it ends the match in bob's
  favour, reconnect attempt or not; its broadcast then sends on alice's closed channel and
  panics. The same happens when the reconnect arrives before the old read loop has ended
  (it is then granted, and the end of the old read loop arms the timer), and when nobody
  reconnects at all.
\<close>

theorem reconnect_in_grace_window_is_refused:
  "run ev_drop initWorld \<noteq> None \<and>
   Status (gameHeap w_drop 0) = ''playing'' \<and>
   AfterFunc (ReconnectTimer 0 0) \<in> set (effects w_drop) \<and>
   players w_drop ''alice'' = None \<and> Send_closed (playerHeap w_drop 0) \<and>
   handleReconnect 2 ''alice'' w_drop = Some w_refused \<and>
   HandleDisconnect_expired 0 0 w_refused = BroadcastState 0 (endGame 0 Player2_mark w_refused) \<and>
   Status (gameHeap (endGame 0 Player2_mark w_refused) 0) = ''finished'' \<and>
   Winner (gameHeap (endGame 0 Player2_mark w_refused) 0) = Player2_mark \<and>
   BroadcastState 0 (endGame 0 Player2_mark w_refused) = None \<and>
   run (ev_drop @ [Receive 2 (reconnect_msg ''alice'') [] [], Fire (ReconnectTimer 0 0) []])
     initWorld = None \<and>
   run (ev_lobby @ [Connect 2, Receive 2 (reconnect_msg ''alice'') [] [], Disconnect 0 [],
                    Fire (ReconnectTimer 0 0) []]) initWorld = None \<and>
   run (ev_lobby @ [Disconnect 0 [], Fire (ReconnectTimer 0 0) []]) initWorld = None"
proof -
  have h1: "run ev_drop initWorld \<noteq> None" by code_simp
  have h2: "Status (gameHeap w_drop 0) = ''playing''" by code_simp
  have h3: "AfterFunc (ReconnectTimer 0 0) \<in> set (effects w_drop)" by code_simp
  have h4: "players w_drop ''alice'' = None" by code_simp
  have h5: "\<not> Send_closed (playerHeap w_drop 2)" by code_simp
  have h6: "Send_closed (playerHeap w_drop 0)" by code_simp
  have h7: "Player1 (gameHeap w_drop 0) = 0" by code_simp
  have r: "handleReconnect 2 ''alice'' w_drop = Some w_refused"
    using h4 h5 by (simp add: handleReconnect_def SendError_def SendMessage_def w_refused_def)
  have t: "HandleDisconnect_expired 0 0 w_refused =
             BroadcastState 0 (endGame 0 Player2_mark w_refused)"
    using h2 h7 by (simp add: HandleDisconnect_expired_def w_refused_def)
  have f: "Status (gameHeap (endGame 0 Player2_mark w_refused) 0) = ''finished''"
    "Winner (gameHeap (endGame 0 Player2_mark w_refused) 0) = Player2_mark"
    by simp_all
  have "Send_closed (playerHeap (endGame 0 Player2_mark w_refused)
          (Player1 (gameHeap (endGame 0 Player2_mark w_refused) 0)))"
    using h6 h7 by (simp add: endGame_players w_refused_def)
  then have b: "BroadcastState 0 (endGame 0 Player2_mark w_refused) = None"
    by (rule BroadcastState_panics)
  have h8: "run (ev_drop @ [Receive 2 (reconnect_msg ''alice'') [] [], Fire (ReconnectTimer 0 0) []])
     initWorld = None" by code_simp
  have h9: "run (ev_lobby @ [Connect 2, Receive 2 (reconnect_msg ''alice'') [] [], Disconnect 0 [],
                    Fire (ReconnectTimer 0 0) []]) initWorld = None" by code_simp
  have h10: "run (ev_lobby @ [Disconnect 0 [], Fire (ReconnectTimer 0 0) []]) initWorld = None"
    by code_simp
  from h1 h2 h3 h4 h6 r t f b h8 h9 h10 show ?thesis by blast
qed

end
